theory Spec2Isabelle
  imports Complex_Main
begin

section \<open>Overview\<close>

text \<open>
  A shallow embedding of the gameplay core of the neon rhythm game (\<^verbatim>\<open>main.py\<close>):
  the falling notes of \<^verbatim>\<open>RhythmGame\<close> (\<^verbatim>\<open>spawn_note\<close>, \<^verbatim>\<open>update_notes\<close>,
  \<^verbatim>\<open>hit_note_in_lane\<close>, the note filter of \<^verbatim>\<open>update\<close>), the quality state of
  \<^verbatim>\<open>PerformanceMonitor\<close> and the chart generator of \<^verbatim>\<open>ChartGenerator\<close>.

  Conventions of the embedding.
  \<^item> Python's \<^verbatim>\<open>float\<close> values (positions, times, frame durations, weights) are
    \<^typ>\<open>real\<close> numbers. Sums, products and comparisons are the mathematical ones,
    except in the section on double-precision positions, where \<^verbatim>\<open>update_notes\<close> is
    given with each operation rounded to the nearest IEEE double.
  \<^item> Python's \<^verbatim>\<open>int\<close> is \<^typ>\<open>int\<close>.
  \<^item> Mutation of \<^verbatim>\<open>self\<close> is explicit state passing on a record.
  \<^item> A raised exception is a value of type \<open>error\<close>.
  \<^item> Values drawn from \<^verbatim>\<open>random\<close> and read from the clock are inputs of the
    modelled functions.
  \<^item> Logging and drawing are left out: they do not write any modelled field.
\<close>

section \<open>Constants\<close>

definition WINDOW_WIDTH :: int where
  "WINDOW_WIDTH = 1200"

definition WINDOW_HEIGHT :: int where
  "WINDOW_HEIGHT = 800"

definition NUM_LANES :: int where
  "NUM_LANES = 4"

definition LANE_WIDTH :: int where
  "LANE_WIDTH = WINDOW_WIDTH div NUM_LANES"

definition NEON_PINK :: "int \<times> int \<times> int" where
  "NEON_PINK = (255, 20, 147)"

definition NEON_GREEN :: "int \<times> int \<times> int" where
  "NEON_GREEN = (57, 255, 20)"

definition NEON_YELLOW :: "int \<times> int \<times> int" where
  "NEON_YELLOW = (255, 255, 0)"

definition NEON_CYAN :: "int \<times> int \<times> int" where
  "NEON_CYAN = (0, 255, 255)"

definition LANE_COLORS :: "(int \<times> int \<times> int) list" where
  "LANE_COLORS = [NEON_PINK, NEON_GREEN, NEON_YELLOW, NEON_CYAN]"


definition HIT_ZONE_Y :: int where
  "HIT_ZONE_Y = WINDOW_HEIGHT - 100"

definition HIT_TOLERANCE :: int where
  "HIT_TOLERANCE = 50"

section \<open>Errors and Python list indexing\<close>

datatype error = IndexError | ZeroDivisionError

text \<open>
  Reading \<^verbatim>\<open>xs[i]\<close>. Positions \<open>0 \<dots> len - 1\<close> count from the front and
  \<open>-1 \<dots> -len\<close> from the back; for every other \<open>i\<close> Python raises
  \<^verbatim>\<open>IndexError\<close>, which is the result \<open>None\<close> here.
\<close>

definition py_index :: "'a list \<Rightarrow> int \<Rightarrow> 'a option" where
  "py_index xs i =
     (if 0 \<le> i \<and> i < int (length xs) then Some (xs ! nat i)
      else if - int (length xs) \<le> i \<and> i < 0 then Some (xs ! nat (int (length xs) + i))
      else None)"

section \<open>Notes and the game state\<close>

text \<open>
  The dataclass \<^verbatim>\<open>Note\<close> (fields \<^verbatim>\<open>lane\<close>, \<^verbatim>\<open>y\<close>, \<^verbatim>\<open>hit\<close>, \<^verbatim>\<open>missed\<close>). A note is
  Active when neither flag is set, Hit when \<^verbatim>\<open>hit\<close> is set, Missed when \<^verbatim>\<open>missed\<close> is.
\<close>

record Note =
  note_lane :: int
  note_y :: real
  note_hit :: bool
  note_missed :: bool

text \<open>
  A \<^verbatim>\<open>Particle\<close> as \<^verbatim>\<open>hit_note_in_lane\<close> constructs it. Its velocity is two random
  draws that no modelled function reads; they are not represented.
\<close>

record Particle =
  particle_x :: int
  particle_y :: int
  particle_color :: "int \<times> int \<times> int"
  particle_life :: int
  particle_max_life :: int

text \<open>
  The fields of \<^verbatim>\<open>RhythmGame\<close> that the gameplay functions read or write; \<open>game_notes\<close> is
  \<^verbatim>\<open>self.notes\<close> (\<open>notes\<close> is reserved in Isabelle) and
  \<open>note_speed\<close> is \<^verbatim>\<open>self.settings.settings["note_speed"]\<close>.
\<close>

record game =
  game_notes :: "Note list"
  particles :: "Particle list"
  score :: int
  combo :: int
  combo_multiplier :: int
  note_speed :: real

definition new_Particle :: "int \<Rightarrow> int \<Rightarrow> int \<times> int \<times> int \<Rightarrow> Particle" where
  "new_Particle x y color =
     \<lparr>particle_x = x, particle_y = y, particle_color = color,
      particle_life = 60, particle_max_life = 60\<rparr>"

text \<open>The state \<^verbatim>\<open>RhythmGame.__init__\<close> sets up, for a given speed setting.\<close>

definition init_game :: "real \<Rightarrow> game" where
  "init_game speed =
     \<lparr>game_notes = [], particles = [], score = 1, combo = 0, combo_multiplier = 1,
      note_speed = speed\<rparr>"

text \<open>
  \<^verbatim>\<open>spawn_note\<close>; the lane is the value \<^verbatim>\<open>random.randint(0, NUM_LANES - 1)\<close> returned.
\<close>

definition spawn_note :: "int \<Rightarrow> game \<Rightarrow> game" where
  "spawn_note lane g =
     g\<lparr>game_notes := game_notes g @ [\<lparr>note_lane = lane, note_y = 0, note_hit = False, note_missed = False\<rparr>]\<rparr>"

subsection \<open>\<^verbatim>\<open>update_notes\<close>\<close>

text \<open>
  The loop of \<^verbatim>\<open>update_notes\<close> over the notes, threading \<^verbatim>\<open>self.combo\<close> and
  \<^verbatim>\<open>self.combo_multiplier\<close>; \<open>v\<close> is the local \<^verbatim>\<open>note_speed\<close>.
\<close>

fun update_notes_loop :: "real \<Rightarrow> Note list \<Rightarrow> int \<Rightarrow> int \<Rightarrow> Note list \<times> int \<times> int" where
  "update_notes_loop v [] c m = ([], c, m)"
| "update_notes_loop v (n # ns) c m =
     (if \<not> note_hit n \<and> \<not> note_missed n then
        (let n1 = n\<lparr>note_y := note_y n + v\<rparr> in
         if note_y n1 > real_of_int (HIT_ZONE_Y + HIT_TOLERANCE) then
           (case update_notes_loop v ns 0 1 of
              (ns', c', m') \<Rightarrow> (n1\<lparr>note_missed := True\<rparr> # ns', c', m'))
         else
           (case update_notes_loop v ns c m of
              (ns', c', m') \<Rightarrow> (n1 # ns', c', m')))
      else
        (case update_notes_loop v ns c m of
           (ns', c', m') \<Rightarrow> (n # ns', c', m')))"

definition update_notes :: "real \<Rightarrow> game \<Rightarrow> game" where
  "update_notes dt g =
     (let v = note_speed g * dt * 60
      in case update_notes_loop v (game_notes g) (combo g) (combo_multiplier g) of
           (ns, c, m) \<Rightarrow> g\<lparr>game_notes := ns, combo := c, combo_multiplier := m\<rparr>)"

subsection \<open>\<^verbatim>\<open>hit_note_in_lane\<close>\<close>

text \<open>The condition of the \<^verbatim>\<open>if\<close> inside the loop of \<^verbatim>\<open>hit_note_in_lane\<close>.\<close>

definition hittable :: "int \<Rightarrow> Note \<Rightarrow> bool" where
  "hittable lane n \<longleftrightarrow>
     (note_lane n = lane \<and> \<not> note_hit n \<and> \<not> note_missed n \<and>
      \<bar>note_y n - real_of_int HIT_ZONE_Y\<bar> \<le> real_of_int HIT_TOLERANCE)"

text \<open>
  The \<^verbatim>\<open>for\<close> loop with its \<^verbatim>\<open>break\<close>: the first note in list order that meets the
  condition gets \<^verbatim>\<open>hit = True\<close> and the scan stops; \<open>None\<close> when the loop runs to its
  end without entering the \<^verbatim>\<open>if\<close>.
\<close>

fun hit_first :: "int \<Rightarrow> Note list \<Rightarrow> Note list option" where
  "hit_first lane [] = None"
| "hit_first lane (n # ns) =
     (if hittable lane n then Some (n\<lparr>note_hit := True\<rparr> # ns)
      else (case hit_first lane ns of None \<Rightarrow> None | Some ns' \<Rightarrow> Some (n # ns')))"

text \<open>
  The rest of the \<^verbatim>\<open>if\<close> body: combo, multiplier, score, then the eight particles.
  \<^verbatim>\<open>LANE_COLORS[lane]\<close> raises \<^verbatim>\<open>IndexError\<close> for a lane outside the table, after the
  counters were written; the returned state is the one the exception leaves behind.
\<close>

definition register_hit :: "int \<Rightarrow> game \<Rightarrow> game \<times> error option" where
  "register_hit lane g =
     (let c = combo g + 1;
          m = (if c \<ge> 30 then 4 else if c \<ge> 20 then 3 else if c \<ge> 10 then 2 else 1);
          points = 100 * m;
          g1 = g\<lparr>combo := c, combo_multiplier := m, score := max 1 (score g + points)\<rparr>;
          x = lane * LANE_WIDTH + LANE_WIDTH div 2
      in case py_index LANE_COLORS lane of
           None \<Rightarrow> (g1, Some IndexError)
         | Some color \<Rightarrow>
             (g1\<lparr>particles := particles g1 @ replicate 8 (new_Particle x HIT_ZONE_Y color)\<rparr>, None))"

definition hit_note_in_lane :: "int \<Rightarrow> game \<Rightarrow> game \<times> error option" where
  "hit_note_in_lane lane g =
     (case hit_first lane (game_notes g) of
        None \<Rightarrow> (g, None)
      | Some ns \<Rightarrow> register_hit lane (g\<lparr>game_notes := ns\<rparr>))"

subsection \<open>The note filter of \<^verbatim>\<open>update\<close>\<close>

text \<open>
  The last statement of \<^verbatim>\<open>RhythmGame.update\<close>:
  \<^verbatim>\<open>self.notes = [note for note in self.notes if note.y < WINDOW_HEIGHT + 100]\<close>.
\<close>

definition remove_old_notes :: "game \<Rightarrow> game" where
  "remove_old_notes g =
     g\<lparr>game_notes := filter (\<lambda>n. note_y n < real_of_int (WINDOW_HEIGHT + 100)) (game_notes g)\<rparr>"

subsection \<open>Sessions\<close>

text \<open>
  A session is a sequence of the calls one frame of \<^verbatim>\<open>update\<close> is made of: a spawn,
  \<^verbatim>\<open>update_notes\<close> with the frame's \<open>dt\<close>, one \<^verbatim>\<open>hit_note_in_lane\<close> for each pressed
  key, the note filter. Any interleaving is allowed, which covers the order \<^verbatim>\<open>update\<close>
  uses. An exception raised by \<^verbatim>\<open>hit_note_in_lane\<close> ends the game loop of \<^verbatim>\<open>run\<close>; a
  session that goes on from the state it leaves covers that case too.
\<close>

datatype event = Spawn int | UpdateNotes real | HitLane int | RemoveOld

fun step :: "event \<Rightarrow> game \<Rightarrow> game" where
  "step (Spawn lane) g = spawn_note lane g"
| "step (UpdateNotes dt) g = update_notes dt g"
| "step (HitLane lane) g = fst (hit_note_in_lane lane g)"
| "step RemoveOld g = remove_old_notes g"

fun play :: "event list \<Rightarrow> game \<Rightarrow> game" where
  "play [] g = g"
| "play (e # es) g = play es (step e g)"

text \<open>Repeated \<^verbatim>\<open>update_notes\<close>, one call for each delta.\<close>

fun update_notes_seq :: "real list \<Rightarrow> game \<Rightarrow> game" where
  "update_notes_seq [] g = g"
| "update_notes_seq (dt # dts) g = update_notes_seq dts (update_notes dt g)"

text \<open>
  Note \<open>i\<close> is Active before the first call and after each call of the sequence.
\<close>

definition active :: "Note \<Rightarrow> bool" where
  "active n \<longleftrightarrow> \<not> note_hit n \<and> \<not> note_missed n"

fun stays_active :: "nat \<Rightarrow> real list \<Rightarrow> game \<Rightarrow> bool" where
  "stays_active i [] g = active (game_notes g ! i)"
| "stays_active i (dt # dts) g =
     (active (game_notes g ! i) \<and> stays_active i dts (update_notes dt g))"

text \<open>What one pass of the loop does to a single note.\<close>

definition advance_note :: "real \<Rightarrow> Note \<Rightarrow> Note" where
  "advance_note v n =
     (if active n then
        n\<lparr>note_y := note_y n + v,
          note_missed := (note_y n + v > real_of_int (HIT_ZONE_Y + HIT_TOLERANCE))\<rparr>
      else n)"

definition crosses :: "real \<Rightarrow> Note \<Rightarrow> bool" where
  "crosses v n \<longleftrightarrow> active n \<and> note_y n + v > real_of_int (HIT_ZONE_Y + HIT_TOLERANCE)"

text \<open>The multiplier as a function of the combo count, as the specification gives it.\<close>

definition stepFunction :: "int \<Rightarrow> int" where
  "stepFunction c = (if c \<ge> 30 then 4 else if c \<ge> 20 then 3 else if c \<ge> 10 then 2 else 1)"

text \<open>
  A session with the speed setting 1.0 (60 units per second) that leaves two Active
  notes of lane 0 inside the hit window: the first spawned at \<open>y = 740\<close>, the second,
  spawned one second later, at \<open>y = 680\<close>.
\<close>

definition stacked_game :: game where
  "stacked_game = play [Spawn 0, UpdateNotes 1, Spawn 0, UpdateNotes (34 / 3)] (init_game 1)"

text \<open>
  The number of steps of a session at which note \<open>i\<close> goes from not Missed to Missed.
\<close>

fun miss_transitions :: "nat \<Rightarrow> event list \<Rightarrow> game \<Rightarrow> nat" where
  "miss_transitions i [] g = 0"
| "miss_transitions i (e # es) g =
     (if \<not> note_missed (game_notes g ! i) \<and> note_missed (game_notes (step e g) ! i)
      then 1 else 0) + miss_transitions i es (step e g)"

text \<open>The state after the key of lane 0 is pressed in \<open>stacked_game\<close>.\<close>

definition stacked_game_hit :: game where
  "stacked_game_hit = fst (hit_note_in_lane 0 stacked_game)"

text \<open>The invariant of the counters.\<close>

definition counters_ok :: "game \<Rightarrow> bool" where
  "counters_ok g \<longleftrightarrow>
     1 \<le> score g \<and> 0 \<le> combo g \<and> combo_multiplier g = stepFunction (combo g)"

section \<open>Double-precision positions\<close>

















section \<open>The performance monitor\<close>

text \<open>
  \<^verbatim>\<open>PerformanceMonitor.quality_level\<close> only ever holds one of the three literals
  \<^verbatim>\<open>"high"\<close>, \<^verbatim>\<open>"medium"\<close>, \<^verbatim>\<open>"low"\<close>.
\<close>

datatype quality = High | Medium | Low

record PerformanceMonitor =
  frame_times :: "real list"
  quality_level :: quality
  last_adjustment :: real

definition init_monitor :: PerformanceMonitor where
  "init_monitor = \<lparr>frame_times = [], quality_level = High, last_adjustment = 0\<rparr>"

text \<open>
  \<^verbatim>\<open>PerformanceMonitor.update(dt)\<close>; \<open>current_time\<close> is the value \<^verbatim>\<open>time.time()\<close>
  returns in the call. The buffer is never empty when the mean is taken; the mean is
  zero exactly when the durations sum to zero, and then \<^verbatim>\<open>1.0 / ...\<close> raises
  \<^verbatim>\<open>ZeroDivisionError\<close>, after the buffer was written.
\<close>

definition monitor_update ::
  "real \<Rightarrow> real \<Rightarrow> PerformanceMonitor \<Rightarrow> PerformanceMonitor \<times> error option" where
  "monitor_update dt current_time pm =
     (let appended = frame_times pm @ [dt];
          ft = (if length appended > 60 then tl appended else appended);
          pm1 = pm\<lparr>frame_times := ft\<rparr>
      in if current_time - last_adjustment pm > 2.0 then
           (let mean = sum_list ft / real (length ft)
            in if mean = 0 then (pm1, Some ZeroDivisionError)
               else
                 (let avg_fps = 1.0 / mean
                  in if avg_fps < 45 \<and> quality_level pm = High then
                       (pm1\<lparr>quality_level := Medium, last_adjustment := current_time\<rparr>, None)
                     else if avg_fps < 30 \<and> quality_level pm = Medium then
                       (pm1\<lparr>quality_level := Low, last_adjustment := current_time\<rparr>, None)
                     else if avg_fps > 55 \<and> quality_level pm = Medium then
                       (pm1\<lparr>quality_level := High, last_adjustment := current_time\<rparr>, None)
                     else (pm1, None)))
         else (pm1, None))"

text \<open>
  A sequence of calls, each with its frame duration and its clock reading. A caller
  that catches the exception goes on with the monitor the failed call left.
\<close>

fun monitor_run :: "(real \<times> real) list \<Rightarrow> PerformanceMonitor \<Rightarrow> PerformanceMonitor" where
  "monitor_run [] pm = pm"
| "monitor_run ((dt, current_time) # calls) pm =
     monitor_run calls (fst (monitor_update dt current_time pm))"

text \<open>
  The buffer a call leaves, and the average the call computes from it
  (\<^verbatim>\<open>1.0 / (sum(frame_times) / len(frame_times))\<close>).
\<close>

definition window_after :: "real \<Rightarrow> PerformanceMonitor \<Rightarrow> real list" where
  "window_after dt pm =
     (if length (frame_times pm @ [dt]) > 60 then tl (frame_times pm @ [dt])
      else frame_times pm @ [dt])"

definition average_fps :: "real list \<Rightarrow> real" where
  "average_fps ft = 1 / (sum_list ft / real (length ft))"

text \<open>The \<^verbatim>\<open>if\<close>/\<^verbatim>\<open>elif\<close> chain of the call as a function of level and average.\<close>

definition next_quality :: "quality \<Rightarrow> real \<Rightarrow> quality" where
  "next_quality q fps =
     (if fps < 45 \<and> q = High then Medium
      else if fps < 30 \<and> q = Medium then Low
      else if fps > 55 \<and> q = Medium then High
      else q)"

text \<open>
  The monitor that \<^verbatim>\<open>test_performance_monitor\<close> builds before it calls
  \<^verbatim>\<open>update(0.04)\<close>: a fresh monitor with 60 durations of \<open>0.04\<close> appended.
\<close>

definition test_monitor :: PerformanceMonitor where
  "test_monitor = init_monitor\<lparr>frame_times := replicate 60 0.04\<rparr>"

section \<open>The chart generator\<close>

text \<open>
  A chart note is a dictionary; \<^verbatim>\<open>remove_duplicate_notes\<close> reads its keys
  \<^verbatim>\<open>"time"\<close> and \<^verbatim>\<open>"lane"\<close> only, and \<^verbatim>\<open>generate_chart\<close> builds notes with the
  further keys \<^verbatim>\<open>"type"\<close> and \<^verbatim>\<open>"energy"\<close>.
\<close>

record timed_note =
  cn_time :: real
  cn_lane :: int

record chart_note = timed_note +
  cn_type :: string
  cn_energy :: real

text \<open>
  The loop of \<^verbatim>\<open>remove_duplicate_notes\<close> over \<^verbatim>\<open>notes[1:]\<close>; \<open>filtered\<close> is
  \<^verbatim>\<open>filtered_notes\<close>, never empty, and \<open>last filtered\<close> is \<^verbatim>\<open>filtered_notes[-1]\<close>.
\<close>

fun remove_duplicate_loop ::
  "real \<Rightarrow> ('a timed_note_scheme) list \<Rightarrow> ('a timed_note_scheme) list \<Rightarrow> ('a timed_note_scheme) list" where
  "remove_duplicate_loop min_gap filtered [] = filtered"
| "remove_duplicate_loop min_gap filtered (n # ns) =
     (let time_gap = cn_time n - cn_time (last filtered)
      in if time_gap \<ge> min_gap then
           (if time_gap \<ge> min_gap * 2 \<or> cn_lane n \<noteq> cn_lane (last filtered)
            then remove_duplicate_loop min_gap (filtered @ [n]) ns
            else remove_duplicate_loop min_gap filtered ns)
         else remove_duplicate_loop min_gap filtered ns)"

text \<open>
  \<^verbatim>\<open>remove_duplicate_notes(notes, min_gap)\<close>. \<^verbatim>\<open>list.sort\<close> is stable, as is
  \<^const>\<open>sort_key\<close>. The default \<^verbatim>\<open>min_gap = 0.1\<close> is passed by the caller.
\<close>

definition remove_duplicate_notes ::
  "('a timed_note_scheme) list \<Rightarrow> real \<Rightarrow> ('a timed_note_scheme) list" where
  "remove_duplicate_notes ns min_gap =
     (if length ns \<le> 1 then ns
      else (case sort_key cn_time ns of
              [] \<Rightarrow> []
            | first # rest \<Rightarrow> remove_duplicate_loop min_gap [first] rest))"

text \<open>
  The rule of the specification for the same pass, written on its own: keep the
  first note of the time-sorted list; keep a later note exactly when its gap to the
  previously kept note is at least \<open>minGap\<close> and either the gap is at least
  \<open>2 * minGap\<close> or its lane differs from the previously kept note's lane.
\<close>

fun dedup_after :: "real \<Rightarrow> 'a timed_note_scheme \<Rightarrow> ('a timed_note_scheme) list \<Rightarrow> ('a timed_note_scheme) list" where
  "dedup_after minGap kept [] = []"
| "dedup_after minGap kept (n # ns) =
     (if cn_time n - cn_time kept \<ge> minGap \<and>
         (cn_time n - cn_time kept \<ge> 2 * minGap \<or> cn_lane n \<noteq> cn_lane kept)
      then n # dedup_after minGap n ns
      else dedup_after minGap kept ns)"

definition dedup :: "('a timed_note_scheme) list \<Rightarrow> real \<Rightarrow> ('a timed_note_scheme) list" where
  "dedup ns minGap =
     (case sort_key cn_time ns of
        [] \<Rightarrow> []
      | first # rest \<Rightarrow> first # dedup_after minGap first rest)"

subsection \<open>The audio-feature summary\<close>

record analysis =
  duration :: real
  bpm :: real
  energy_levels :: "real list"
  peak_times :: "int list"
  tempo_changes :: "real list"

definition get_default_analysis :: analysis where
  "get_default_analysis =
     \<lparr>duration = 180, bpm = 120, energy_levels = replicate 180 0.7,
      peak_times = map (\<lambda>i. int i * 2) [0..<90], tempo_changes = []\<rparr>"

subsection \<open>Random draws\<close>

text \<open>
  The generator draws from \<^verbatim>\<open>random\<close>. The model takes the sequence of values that
  \<^verbatim>\<open>random.random()\<close> returns (each in \<open>[0, 1)\<close>) as an input \<open>rnd\<close> and threads the
  number \<open>k\<close> of values used so far. \<^verbatim>\<open>random.uniform(a, b)\<close> is \<open>a + (b - a) * u\<close>
  for the next value \<open>u\<close>, as in the standard library; \<^verbatim>\<open>random.randint(a, b)\<close> is
  represented by \<open>a + \<lfloor>u * (b - a + 1)\<rfloor>\<close>.
\<close>

type_synonym rng = "nat \<Rightarrow> real"

definition uniform :: "real \<Rightarrow> real \<Rightarrow> real \<Rightarrow> real" where
  "uniform a b u = a + (b - a) * u"

definition randint :: "int \<Rightarrow> int \<Rightarrow> real \<Rightarrow> int" where
  "randint a b u = a + \<lfloor>u * real_of_int (b - a + 1)\<rfloor>"

text \<open>\<^verbatim>\<open>int(x)\<close> on a float truncates towards zero.\<close>

definition py_int :: "real \<Rightarrow> int" where
  "py_int x = (if x \<ge> 0 then \<lfloor>x\<rfloor> else \<lceil>x\<rceil>)"

subsection \<open>\<^verbatim>\<open>choose_lane_musically\<close>\<close>

text \<open>
  \<^verbatim>\<open>for lane in recent_lanes: lane_weights[lane] *= 0.3\<close>, with Python's indexing:
  a lane outside the table raises \<^verbatim>\<open>IndexError\<close>.
\<close>

fun penalise_recent :: "int list \<Rightarrow> real list \<Rightarrow> real list option" where
  "penalise_recent [] lane_weights = Some lane_weights"
| "penalise_recent (lane # lanes) lane_weights =
     (let n = int (length lane_weights); j = (if lane < 0 then n + lane else lane)
      in if 0 \<le> j \<and> j < n
         then penalise_recent lanes (lane_weights[nat j := lane_weights ! nat j * 0.3])
         else None)"

text \<open>
  \<^verbatim>\<open>for i in range(NUM_LANES): if abs(i - last_lane) == 1 or abs(i - last_lane) == 3:
  lane_weights[i] *= 1.5\<close>, on a table of \<^verbatim>\<open>NUM_LANES\<close> weights.
\<close>

definition encourage_alternating :: "int \<Rightarrow> real list \<Rightarrow> real list" where
  "encourage_alternating last_lane lane_weights =
     map (\<lambda>i. if \<bar>int i - last_lane\<bar> = 1 \<or> \<bar>int i - last_lane\<bar> = 3
               then lane_weights ! i * 1.5 else lane_weights ! i)
         [0..<nat NUM_LANES]"

text \<open>
  The cumulative-weight scan: the first index whose running sum reaches \<open>rand_val\<close>;
  \<open>None\<close> when the loop ends without returning.
\<close>

fun cumulative_pick :: "real \<Rightarrow> real \<Rightarrow> int \<Rightarrow> real list \<Rightarrow> int option" where
  "cumulative_pick rand_val cumulative i [] = None"
| "cumulative_pick rand_val cumulative i (weight # weights) =
     (if rand_val \<le> cumulative + weight then Some i
      else cumulative_pick rand_val (cumulative + weight) (i + 1) weights)"

text \<open>
  \<^verbatim>\<open>choose_lane_musically(current_time, bpm, existing_notes)\<close>: the chosen lane and the
  number of random values used, or the exception.
\<close>

definition choose_lane_musically ::
  "real \<Rightarrow> real \<Rightarrow> chart_note list \<Rightarrow> rng \<Rightarrow> nat \<Rightarrow> error + (int \<times> nat)" where
  "choose_lane_musically current_time bpm_arg existing_notes rnd k =
     (let recent_notes = filter (\<lambda>n. current_time - cn_time n < 2.0) existing_notes;
          recent_lanes = map cn_lane (drop (length recent_notes - 4) recent_notes)
      in case penalise_recent recent_lanes (replicate (nat NUM_LANES) 1.0) of
           None \<Rightarrow> Inl IndexError
         | Some w1 \<Rightarrow>
             (let lane_weights =
                    (if length recent_notes > 0
                     then encourage_alternating (cn_lane (last recent_notes)) w1 else w1);
                  total_weight = sum_list lane_weights
              in if total_weight = 0 then Inr (randint 0 (NUM_LANES - 1) (rnd k), k + 1)
                 else
                   (case cumulative_pick (uniform 0 total_weight (rnd k)) 0 0 lane_weights of
                      Some i \<Rightarrow> Inr (i, k + 1)
                    | None \<Rightarrow> Inr (NUM_LANES - 1, k + 1))))"

subsection \<open>\<^verbatim>\<open>generate_chart\<close>\<close>

definition density_multiplier :: "string \<Rightarrow> real" where
  "density_multiplier difficulty =
     (if difficulty = ''Easy'' then 0.3
      else if difficulty = ''Normal'' then 0.6
      else if difficulty = ''Hard'' then 0.9
      else if difficulty = ''Expert'' then 1.2
      else 0.6)"

text \<open>
  The \<^verbatim>\<open>while current_time < duration\<close> loop. The first argument bounds the number of
  iterations: \<open>None\<close> means the loop did not end within that many.
\<close>

fun chart_loop ::
  "nat \<Rightarrow> analysis \<Rightarrow> string \<Rightarrow> real \<Rightarrow> real \<Rightarrow> rng \<Rightarrow> nat \<Rightarrow> real \<Rightarrow> chart_note list
     \<Rightarrow> (error + chart_note list) option" where
  "chart_loop fuel a difficulty base_density beat_interval rnd k current_time ns =
     (if current_time < duration a then
        (case fuel of
           0 \<Rightarrow> None
         | Suc fuel' \<Rightarrow>
             (let energy_index = min (py_int current_time) (int (length (energy_levels a)) - 1)
              in case py_index (energy_levels a) energy_index of
                   None \<Rightarrow> Some (Inl IndexError)
                 | Some energy \<Rightarrow>
                     (let note_probability = base_density * energy;
                          placed =
                            (if rnd k < note_probability then
                               (case choose_lane_musically current_time (bpm a) ns rnd (k + 1) of
                                  Inl e \<Rightarrow> Inl e
                                | Inr (lane, k') \<Rightarrow>
                                    Inr (ns @ [\<lparr>cn_time = current_time, cn_lane = lane,
                                               cn_type = ''normal'', cn_energy = energy\<rparr>], k'))
                             else Inr (ns, k + 1))
                      in case placed of
                           Inl e \<Rightarrow> Some (Inl e)
                         | Inr (ns', k') \<Rightarrow>
                             (let base_advance = beat_interval * (0.5 + uniform 0 0.5 (rnd k'));
                                  time_advance =
                                    (if difficulty = ''Expert'' then base_advance * 0.7
                                     else if difficulty = ''Easy'' then base_advance * 1.5
                                     else base_advance)
                              in chart_loop fuel' a difficulty base_density beat_interval rnd
                                   (k' + 1) (current_time + time_advance) ns'))))
      else Some (Inr ns))"

declare chart_loop.simps [simp del]

text \<open>
  \<^verbatim>\<open>generate_chart(analysis, difficulty)\<close>. \<^verbatim>\<open>60.0 / bpm\<close> raises
  \<^verbatim>\<open>ZeroDivisionError\<close> for \<open>bpm = 0\<close>. The result is \<open>None\<close> when the loop does not
  end within \<open>fuel\<close> iterations.
\<close>

definition generate_chart ::
  "nat \<Rightarrow> rng \<Rightarrow> analysis \<Rightarrow> string \<Rightarrow> (error + chart_note list) option" where
  "generate_chart fuel rnd a difficulty =
     (let base_density = density_multiplier difficulty
      in if bpm a = 0 then Some (Inl ZeroDivisionError)
         else
           (let beat_interval = 60.0 / bpm a
            in case chart_loop fuel a difficulty base_density beat_interval rnd 0 0 [] of
                 None \<Rightarrow> None
               | Some (Inl e) \<Rightarrow> Some (Inl e)
               | Some (Inr ns) \<Rightarrow> Some (Inr (remove_duplicate_notes ns 0.1))))"

text \<open>A sequence of draws for concrete runs: every draw is \<open>0.5\<close>.\<close>

definition rnd_half :: rng where
  "rnd_half k = 0.5"

section \<open>Properties of \<^verbatim>\<open>update_notes\<close>\<close>

lemma update_notes_loop_eq:
  "update_notes_loop v ns c m =
     (map (advance_note v) ns, if list_ex (crosses v) ns then (0, 1) else (c, m))"
  by (induction ns arbitrary: c m) (simp_all add: advance_note_def crosses_def active_def Let_def)

lemma update_notes_eq:
  "update_notes dt g =
     (let v = note_speed g * dt * 60
      in g\<lparr>game_notes := map (advance_note v) (game_notes g),
           combo := (if list_ex (crosses v) (game_notes g) then 0 else combo g),
           combo_multiplier :=
             (if list_ex (crosses v) (game_notes g) then 1 else combo_multiplier g)\<rparr>)"
  by (simp add: update_notes_def update_notes_loop_eq Let_def)

lemma notes_update_notes:
  "game_notes (update_notes dt g) = map (advance_note (note_speed g * dt * 60)) (game_notes g)"
  by (simp add: update_notes_eq Let_def)

lemma note_speed_update_notes: "note_speed (update_notes dt g) = note_speed g"
  by (simp add: update_notes_eq Let_def)

lemma score_update_notes: "score (update_notes dt g) = score g"
  by (simp add: update_notes_eq Let_def)

lemma length_update_notes: "length (game_notes (update_notes dt g)) = length (game_notes g)"
  by (simp add: notes_update_notes)

text \<open>
  In exact arithmetic the position of a note that stays Active is its first position
  plus \<open>note_speed * 60\<close> times the elapsed time.
\<close>

lemma update_notes_seq_y:
  "i < length (game_notes g) \<Longrightarrow> stays_active i dts g \<Longrightarrow>
   note_y (game_notes (update_notes_seq dts g) ! i) =
     note_y (game_notes g ! i) + note_speed g * sum_list dts * 60"
proof (induction dts arbitrary: g)
  case Nil
  then show ?case by simp
next
  case (Cons dt dts)
  let ?g = "update_notes dt g"
  have len: "i < length (game_notes ?g)"
    using Cons.prems(1) by (simp add: length_update_notes)
  have act: "active (game_notes g ! i)" and rest: "stays_active i dts ?g"
    using Cons.prems(2) by simp_all
  have y1: "note_y (game_notes ?g ! i) = note_y (game_notes g ! i) + note_speed g * dt * 60"
    using Cons.prems(1) act by (simp add: notes_update_notes advance_note_def)
  have "note_y (game_notes (update_notes_seq dts ?g) ! i) =
          note_y (game_notes ?g ! i) + note_speed ?g * sum_list dts * 60"
    using Cons.IH [OF len rest] .
  then show ?case
    by (simp add: y1 note_speed_update_notes algebra_simps)
qed

section \<open>Frame-rate independence and rounding\<close>
















section \<open>Properties of the performance monitor\<close>

lemma frame_times_monitor_update:
  "frame_times (fst (monitor_update dt t pm)) = window_after dt pm"
  by (simp add: monitor_update_def window_after_def Let_def)

lemma window_after_nonempty: "window_after dt pm \<noteq> []"
  by (cases "frame_times pm") (simp_all add: window_after_def)

lemma quality_monitor_update:
  "quality_level (fst (monitor_update dt t pm)) =
     (if t - last_adjustment pm > 2 \<and> sum_list (window_after dt pm) \<noteq> 0
      then next_quality (quality_level pm) (average_fps (window_after dt pm))
      else quality_level pm)"
  using window_after_nonempty [of dt pm]
  by (simp add: monitor_update_def window_after_def average_fps_def next_quality_def Let_def)

lemma last_adjustment_monitor_update:
  "last_adjustment (fst (monitor_update dt t pm)) =
     (if quality_level (fst (monitor_update dt t pm)) \<noteq> quality_level pm then t
      else last_adjustment pm)"
  by (simp add: monitor_update_def Let_def)

lemma monitor_update_Low:
  "quality_level pm = Low \<Longrightarrow> quality_level (fst (monitor_update dt t pm)) = Low"
  by (simp add: quality_monitor_update next_quality_def)

lemma monitor_run_Low:
  "quality_level pm = Low \<Longrightarrow> quality_level (monitor_run calls pm) = Low"
proof (induction calls arbitrary: pm)
  case Nil
  then show ?case by simp
next
  case (Cons call calls)
  obtain dt t where call: "call = (dt, t)" by (cases call)
  show ?case
    using Cons.IH [OF monitor_update_Low [OF Cons.prems, of dt t]] by (simp add: call)
qed

lemma window_after_replicate:
  assumes "frame_times pm = replicate n dt" and "60 \<le> n"
  shows "window_after dt pm = replicate n dt"
proof -
  obtain k where n: "n = Suc k"
    using assms(2) by (cases n) simp_all
  show ?thesis
    using assms by (simp add: window_after_def n replicate_append_same)
qed

lemma window_after_full:
  "frame_times pm = replicate 60 dt \<Longrightarrow> window_after dt pm = replicate 60 dt"
  by (rule window_after_replicate) simp_all

lemma average_fps_replicate: "average_fps (replicate 60 (0.04::real)) = 25"
  by (simp add: average_fps_def sum_list_replicate)

lemma sum_list_replicate_frames: "sum_list (replicate 60 (0.04::real)) \<noteq> 0"
  by (simp add: sum_list_replicate)

text \<open>
  Claim C7, as amended. The quality level never changes while on cooldown: a call
  that changes it has a clock reading more than 2 seconds after \<open>last_adjustment\<close>,
  and it sets \<open>last_adjustment\<close> to that reading. The call does not look at the
  number of buffered frame durations, so a change needs no full window of 60 (see the
  counterexample that follows).
\<close>

theorem monitor_update_change_after_cooldown:
  assumes "quality_level (fst (monitor_update dt t pm)) \<noteq> quality_level pm"
  shows "t - last_adjustment pm > 2 \<and> last_adjustment (fst (monitor_update dt t pm)) = t"
proof
  show "t - last_adjustment pm > 2"
    using assms by (simp add: quality_monitor_update split: if_splits)
  show "last_adjustment (fst (monitor_update dt t pm)) = t"
    using assms by (simp add: last_adjustment_monitor_update)
qed

theorem monitor_update_change_after_cooldown_witness:
  "quality_level (fst (monitor_update 0.04 1700000000 init_monitor)) \<noteq> quality_level init_monitor \<and>
   1700000000 - last_adjustment init_monitor > 2 \<and>
   last_adjustment (fst (monitor_update 0.04 1700000000 init_monitor)) = 1700000000"
proof -
  have changed:
    "quality_level (fst (monitor_update 0.04 1700000000 init_monitor)) \<noteq> quality_level init_monitor"
    by (simp add: monitor_update_def init_monitor_def Let_def)
  show ?thesis
    using changed monitor_update_change_after_cooldown [OF changed] by simp
qed

text \<open>
  Claim C7 as stated fails: the first call on a fresh monitor, with one frame duration
  of \<open>0.04\<close> in the buffer, already changes the level (\<open>last_adjustment\<close> starts at 0
  and the clock reading is seconds since the epoch).
\<close>

theorem monitor_update_change_without_full_window:
  "quality_level (fst (monitor_update 0.04 1700000000 init_monitor)) \<noteq> quality_level init_monitor \<and>
   length (frame_times (fst (monitor_update 0.04 1700000000 init_monitor))) < 60"
  by (simp add: monitor_update_def init_monitor_def Let_def)

text \<open>
  Claim C8. The only transitions of the quality level are High to Medium at an
  average below 45, Medium to Low at an average below 30 and Medium to High at an
  average above 55, the average being taken over the buffer the call leaves. Once the
  level is Low, no sequence of calls changes it. From High with 60 buffered durations
  of \<open>0.04\<close> (25 frames per second), one call with \<open>dt = 0.04\<close> after the cooldown
  gives Medium, not Low.
\<close>

theorem monitor_update_transitions:
  "(quality_level (fst (monitor_update dt t pm)) \<noteq> quality_level pm \<longrightarrow>
      (quality_level pm = High \<and> quality_level (fst (monitor_update dt t pm)) = Medium \<and>
         average_fps (window_after dt pm) < 45) \<or>
      (quality_level pm = Medium \<and> quality_level (fst (monitor_update dt t pm)) = Low \<and>
         average_fps (window_after dt pm) < 30) \<or>
      (quality_level pm = Medium \<and> quality_level (fst (monitor_update dt t pm)) = High \<and>
         average_fps (window_after dt pm) > 55)) \<and>
   (quality_level pm = Low \<longrightarrow> quality_level (monitor_run calls pm) = Low) \<and>
   (quality_level pm = High \<and> frame_times pm = replicate 60 0.04 \<and> t - last_adjustment pm > 2 \<longrightarrow>
      quality_level (fst (monitor_update 0.04 t pm)) = Medium)"
proof (intro conjI impI)
  assume "quality_level (fst (monitor_update dt t pm)) \<noteq> quality_level pm"
  then show "(quality_level pm = High \<and> quality_level (fst (monitor_update dt t pm)) = Medium \<and>
         average_fps (window_after dt pm) < 45) \<or>
      (quality_level pm = Medium \<and> quality_level (fst (monitor_update dt t pm)) = Low \<and>
         average_fps (window_after dt pm) < 30) \<or>
      (quality_level pm = Medium \<and> quality_level (fst (monitor_update dt t pm)) = High \<and>
         average_fps (window_after dt pm) > 55)"
    by (cases "quality_level pm")
       (auto simp: quality_monitor_update next_quality_def split: if_splits)
next
  assume "quality_level pm = Low"
  then show "quality_level (monitor_run calls pm) = Low"
    by (rule monitor_run_Low)
next
  assume a: "quality_level pm = High \<and> frame_times pm = replicate 60 0.04 \<and>
             t - last_adjustment pm > 2"
  then have w: "window_after 0.04 pm = replicate 60 0.04"
    by (simp add: window_after_full)
  have "quality_level (fst (monitor_update 0.04 t pm)) =
          next_quality High (average_fps (replicate 60 0.04))"
    unfolding quality_monitor_update w using a sum_list_replicate_frames by simp
  then show "quality_level (fst (monitor_update 0.04 t pm)) = Medium"
    unfolding average_fps_replicate by (simp add: next_quality_def)
qed

theorem monitor_update_transitions_witness:
  "quality_level (fst (monitor_update 0.04 1700000000 test_monitor)) \<noteq> quality_level test_monitor \<and>
   quality_level test_monitor = High \<and>
   frame_times test_monitor = replicate 60 0.04 \<and>
   1700000000 - last_adjustment test_monitor > 2 \<and>
   quality_level (fst (monitor_update 0.04 1700000000 test_monitor)) = Medium \<and>
   average_fps (window_after 0.04 test_monitor) < 45 \<and>
   quality_level (test_monitor\<lparr>quality_level := Low\<rparr>) = Low \<and>
   quality_level
     (monitor_run [(0.01, 1700000000), (0.01, 1700000003)] (test_monitor\<lparr>quality_level := Low\<rparr>)) = Low"
proof -
  have high: "quality_level test_monitor = High"
    and frames: "frame_times test_monitor = replicate 60 0.04"
    and cooldown: "1700000000 - last_adjustment test_monitor > 2"
    by (simp_all add: test_monitor_def init_monitor_def)
  have low: "quality_level (test_monitor\<lparr>quality_level := Low\<rparr>) = Low"
    by simp
  have medium: "quality_level (fst (monitor_update 0.04 1700000000 test_monitor)) = Medium"
    using monitor_update_transitions [where dt = "0.04" and t = 1700000000 and pm = test_monitor] high frames cooldown
    by blast
  have fps: "average_fps (window_after 0.04 test_monitor) < 45"
    using monitor_update_transitions [where dt = "0.04" and t = 1700000000 and pm = test_monitor] high medium
    by auto
  have stays:
    "quality_level
       (monitor_run [(0.01, 1700000000), (0.01, 1700000003)] (test_monitor\<lparr>quality_level := Low\<rparr>)) = Low"
    using monitor_update_transitions
      [of "0.04" 0 "test_monitor\<lparr>quality_level := Low\<rparr>" "[(0.01, 1700000000), (0.01, 1700000003)]"] low
    by blast
  show ?thesis
    using high frames cooldown low medium fps stays by simp
qed

section \<open>Properties of \<^verbatim>\<open>remove_duplicate_notes\<close>\<close>

lemma remove_duplicate_loop_dedup_after:
  "remove_duplicate_loop g (kept_before @ [kept]) ns = kept_before @ kept # dedup_after g kept ns"
proof (induction ns arbitrary: kept_before kept)
  case Nil
  show ?case by simp
next
  case (Cons n ns)
  have app: "remove_duplicate_loop g ((kept_before @ [kept]) @ [n]) ns =
               (kept_before @ [kept]) @ n # dedup_after g n ns"
    by (rule Cons.IH)
  show ?case
    using app Cons.IH [of kept_before kept]
    by (simp add: Let_def mult.commute)
qed

lemma remove_duplicate_loop_single:
  "remove_duplicate_loop g [kept] ns = kept # dedup_after g kept ns"
  using remove_duplicate_loop_dedup_after [of g "[]" kept ns] by simp

text \<open>
  Claim C9. \<^verbatim>\<open>remove_duplicate_notes\<close> computes the rule of the specification:
  sort by time ascending, keep the first note, keep a later note exactly when its
  gap to the previously kept note is at least \<open>minGap\<close> and the gap is at least
  \<open>2 * minGap\<close> or the lanes differ. On the notes at times 1.0 (lane 0), 1.05 (lane 0)
  and 2.0 (lane 1) with \<open>minGap = 0.1\<close> it returns the first and the third.
\<close>

theorem remove_duplicate_notes_dedup:
  "remove_duplicate_notes ns minGap = dedup ns minGap \<and>
   remove_duplicate_notes
     [\<lparr>cn_time = 1.0, cn_lane = 0\<rparr>, \<lparr>cn_time = 1.05, cn_lane = 0\<rparr>,
      \<lparr>cn_time = 2.0, cn_lane = 1\<rparr>] 0.1 =
     [\<lparr>cn_time = 1.0, cn_lane = 0\<rparr>, \<lparr>cn_time = 2.0, cn_lane = 1\<rparr>]"
proof
  show "remove_duplicate_notes ns minGap = dedup ns minGap"
  proof (cases "length ns \<le> 1")
    case True
    then show ?thesis
      by (cases ns) (simp_all add: remove_duplicate_notes_def dedup_def Suc_le_eq)
  next
    case False
    then show ?thesis
      by (simp add: remove_duplicate_notes_def dedup_def remove_duplicate_loop_single
          split: list.splits)
  qed
next
  show "remove_duplicate_notes
     [\<lparr>cn_time = 1.0, cn_lane = 0\<rparr>, \<lparr>cn_time = 1.05, cn_lane = 0\<rparr>,
      \<lparr>cn_time = 2.0, cn_lane = 1\<rparr>] 0.1 =
     [\<lparr>cn_time = 1.0, cn_lane = 0\<rparr>, \<lparr>cn_time = 2.0, cn_lane = 1\<rparr>]"
    by (simp add: remove_duplicate_notes_def Let_def)
qed

text \<open>
  Claim C10 as stated fails: on the notes at times 0 (lane 0), 0.12 (lane 1) and 0.20
  (lane 0) with \<open>minGap = 0.1\<close> the result is not the three notes.
\<close>

theorem remove_duplicate_notes_cross_lane_not_all_kept:
  "remove_duplicate_notes
     [\<lparr>cn_time = 0, cn_lane = 0\<rparr>, \<lparr>cn_time = 0.12, cn_lane = 1\<rparr>,
      \<lparr>cn_time = 0.20, cn_lane = 0\<rparr>] 0.1 \<noteq>
     [\<lparr>cn_time = 0, cn_lane = 0\<rparr>, \<lparr>cn_time = 0.12, cn_lane = 1\<rparr>,
      \<lparr>cn_time = 0.20, cn_lane = 0\<rparr>]"
  by (simp add: remove_duplicate_notes_def Let_def)

text \<open>
  Claim C10, as amended. On that input \<^verbatim>\<open>remove_duplicate_notes\<close> keeps the first
  two notes and drops the third: its gap to the previously kept note (the one at
  0.12) is 0.08, below \<open>minGap\<close>.
\<close>

theorem remove_duplicate_notes_cross_lane_example:
  "remove_duplicate_notes
     [\<lparr>cn_time = 0, cn_lane = 0\<rparr>, \<lparr>cn_time = 0.12, cn_lane = 1\<rparr>,
      \<lparr>cn_time = 0.20, cn_lane = 0\<rparr>] 0.1 =
     [\<lparr>cn_time = 0, cn_lane = 0\<rparr>, \<lparr>cn_time = 0.12, cn_lane = 1\<rparr>]"
  by (simp add: remove_duplicate_notes_def Let_def)

section \<open>Properties of \<^verbatim>\<open>hit_note_in_lane\<close>\<close>

lemma hit_first_None: "hit_first lane ns = None \<longleftrightarrow> (\<forall>n \<in> set ns. \<not> hittable lane n)"
  by (induction ns) (auto split: option.splits)

lemma hit_first_Some:
  "hit_first lane ns = Some ns' \<Longrightarrow>
   \<exists>k < length ns. hittable lane (ns ! k) \<and> (\<forall>j < k. \<not> hittable lane (ns ! j)) \<and>
     ns' = ns[k := (ns ! k)\<lparr>note_hit := True\<rparr>]"
proof (induction ns arbitrary: ns')
  case Nil
  then show ?case by simp
next
  case (Cons n ns)
  show ?case
  proof (cases "hittable lane n")
    case True
    with Cons.prems have "ns' = (n # ns)[0 := ((n # ns) ! 0)\<lparr>note_hit := True\<rparr>]"
      by simp
    with True show ?thesis
      by (intro exI [of _ 0]) simp
  next
    case False
    with Cons.prems obtain tl' where tl': "hit_first lane ns = Some tl'" and ns': "ns' = n # tl'"
      by (auto split: option.splits)
    from Cons.IH [OF tl'] obtain k where k: "k < length ns" "hittable lane (ns ! k)"
      "\<forall>j < k. \<not> hittable lane (ns ! j)" "tl' = ns[k := (ns ! k)\<lparr>note_hit := True\<rparr>]"
      by blast
    have first: "\<forall>j < Suc k. \<not> hittable lane ((n # ns) ! j)"
      using False k(3) by (auto simp: less_Suc_eq_0_disj)
    show ?thesis
      using k(1,2,4) first ns' by (intro exI [of _ "Suc k"]) simp
  qed
qed

lemma game_notes_register_hit: "game_notes (fst (register_hit lane g)) = game_notes g"
  by (simp add: register_hit_def Let_def split: option.splits)

lemma game_notes_hit_note_in_lane:
  "game_notes (fst (hit_note_in_lane lane g)) =
     (case hit_first lane (game_notes g) of None \<Rightarrow> game_notes g | Some ns \<Rightarrow> ns)"
  by (simp add: hit_note_in_lane_def game_notes_register_hit split: option.splits)

lemma hit_note_in_lane_cases:
  obtains (miss) "\<forall>n \<in> set (game_notes g). \<not> hittable lane n"
      "game_notes (fst (hit_note_in_lane lane g)) = game_notes g"
  | (hit) k where "k < length (game_notes g)" "hittable lane (game_notes g ! k)"
      "\<forall>j < k. \<not> hittable lane (game_notes g ! j)"
      "game_notes (fst (hit_note_in_lane lane g)) =
         (game_notes g)[k := (game_notes g ! k)\<lparr>note_hit := True\<rparr>]"
proof (cases "hit_first lane (game_notes g)")
  case None
  have none: "\<forall>n \<in> set (game_notes g). \<not> hittable lane n"
    using None by (simp add: hit_first_None)
  have same: "game_notes (fst (hit_note_in_lane lane g)) = game_notes g"
    using None by (simp add: game_notes_hit_note_in_lane)
  show ?thesis
    by (rule miss [OF none same])
next
  case (Some ns')
  from hit_first_Some [OF Some] obtain k where "k < length (game_notes g)"
    "hittable lane (game_notes g ! k)" "\<forall>j < k. \<not> hittable lane (game_notes g ! j)"
    "ns' = (game_notes g)[k := (game_notes g ! k)\<lparr>note_hit := True\<rparr>]"
    by blast
  then show ?thesis
    using hit [of k] Some by (simp add: game_notes_hit_note_in_lane)
qed

text \<open>
  Claim C2, as amended. In a call of \<^verbatim>\<open>hit_note_in_lane\<close> a note goes to Hit only
  if it is Active, in the given lane and within the tolerance of the hit line; the
  note that does is the first such note in list order (notes are appended when
  spawned, so the earliest spawned), whatever its distance to the hit line; every
  other note is left as it was, so at most one note goes to Hit.
\<close>

theorem hit_note_in_lane_first_qualifying:
  assumes "i < length (game_notes g)"
    and "\<not> note_hit (game_notes g ! i)"
    and "note_hit (game_notes (fst (hit_note_in_lane lane g)) ! i)"
  shows "hittable lane (game_notes g ! i) \<and>
         (\<forall>j < i. \<not> hittable lane (game_notes g ! j)) \<and>
         length (game_notes (fst (hit_note_in_lane lane g))) = length (game_notes g) \<and>
         game_notes (fst (hit_note_in_lane lane g)) ! i = (game_notes g ! i)\<lparr>note_hit := True\<rparr> \<and>
         (\<forall>j < length (game_notes g). j \<noteq> i \<longrightarrow>
            game_notes (fst (hit_note_in_lane lane g)) ! j = game_notes g ! j)"
  using hit_note_in_lane_cases [of g lane]
proof cases
  case miss
  then show ?thesis using assms by simp
next
  case (hit k)
  have "k = i"
  proof (rule ccontr)
    assume "k \<noteq> i"
    then have "game_notes (fst (hit_note_in_lane lane g)) ! i = game_notes g ! i"
      by (simp add: hit(4))
    then show False using assms(2,3) by simp
  qed
  then show ?thesis
    using hit assms(1) by simp
qed

lemma stacked_game_notes:
  "game_notes stacked_game =
     [\<lparr>note_lane = 0, note_y = 740, note_hit = False, note_missed = False\<rparr>,
      \<lparr>note_lane = 0, note_y = 680, note_hit = False, note_missed = False\<rparr>]"
  by (simp add: stacked_game_def update_notes_eq spawn_note_def init_game_def advance_note_def
      active_def crosses_def HIT_ZONE_Y_def HIT_TOLERANCE_def WINDOW_HEIGHT_def Let_def)

text \<open>
  Claim C2 as stated fails in its last part: in \<open>stacked_game\<close> both notes of lane 0
  qualify and the second is strictly nearer to the hit line, yet the call marks the
  first and leaves the second.
\<close>

theorem hit_note_in_lane_not_nearest:
  "hittable 0 (game_notes stacked_game ! 0) \<and> hittable 0 (game_notes stacked_game ! 1) \<and>
   \<bar>note_y (game_notes stacked_game ! 1) - real_of_int HIT_ZONE_Y\<bar> <
     \<bar>note_y (game_notes stacked_game ! 0) - real_of_int HIT_ZONE_Y\<bar> \<and>
   note_hit (game_notes (fst (hit_note_in_lane 0 stacked_game)) ! 0) \<and>
   \<not> note_hit (game_notes (fst (hit_note_in_lane 0 stacked_game)) ! 1)"
  by (simp add: game_notes_hit_note_in_lane stacked_game_notes hittable_def
      HIT_ZONE_Y_def HIT_TOLERANCE_def WINDOW_HEIGHT_def)

theorem hit_note_in_lane_first_qualifying_witness:
  "0 < length (game_notes stacked_game) \<and>
   \<not> note_hit (game_notes stacked_game ! 0) \<and>
   note_hit (game_notes (fst (hit_note_in_lane 0 stacked_game)) ! 0) \<and>
   hittable 0 (game_notes stacked_game ! 0) \<and>
   length (game_notes (fst (hit_note_in_lane 0 stacked_game))) = length (game_notes stacked_game) \<and>
   game_notes (fst (hit_note_in_lane 0 stacked_game)) ! 0 =
     (game_notes stacked_game ! 0)\<lparr>note_hit := True\<rparr> \<and>
   game_notes (fst (hit_note_in_lane 0 stacked_game)) ! 1 = game_notes stacked_game ! 1"
proof -
  have len: "0 < length (game_notes stacked_game)"
    and before: "\<not> note_hit (game_notes stacked_game ! 0)"
    by (simp_all add: stacked_game_notes)
  have after: "note_hit (game_notes (fst (hit_note_in_lane 0 stacked_game)) ! 0)"
    by (simp add: game_notes_hit_note_in_lane stacked_game_notes hittable_def
        HIT_ZONE_Y_def HIT_TOLERANCE_def WINDOW_HEIGHT_def)
  have two: "(1::nat) < length (game_notes stacked_game)"
    by (simp add: stacked_game_notes)
  show ?thesis
    using len before after two hit_note_in_lane_first_qualifying [OF len before after]
    by simp
qed

section \<open>Score, combo and multiplier\<close>

lemma register_hit_counters:
  "combo (fst (register_hit lane g)) = combo g + 1"
  "combo_multiplier (fst (register_hit lane g)) = stepFunction (combo g + 1)"
  "score (fst (register_hit lane g)) = max 1 (score g + 100 * stepFunction (combo g + 1))"
  by (simp_all add: register_hit_def stepFunction_def Let_def split: option.splits)

lemma stepFunction_range: "1 \<le> stepFunction c \<and> stepFunction c \<le> 4"
  by (simp add: stepFunction_def)

lemma hit_note_in_lane_counters:
  "combo (fst (hit_note_in_lane lane g)) =
     (if hit_first lane (game_notes g) = None then combo g else combo g + 1)"
  "combo_multiplier (fst (hit_note_in_lane lane g)) =
     (if hit_first lane (game_notes g) = None then combo_multiplier g
      else stepFunction (combo g + 1))"
  "score (fst (hit_note_in_lane lane g)) =
     (if hit_first lane (game_notes g) = None then score g
      else max 1 (score g + 100 * stepFunction (combo g + 1)))"
  by (auto simp: hit_note_in_lane_def register_hit_counters split: option.splits)

lemma update_notes_counters:
  "combo (update_notes dt g) =
     (if list_ex (crosses (note_speed g * dt * 60)) (game_notes g) then 0 else combo g)"
  "combo_multiplier (update_notes dt g) =
     (if list_ex (crosses (note_speed g * dt * 60)) (game_notes g) then 1
      else combo_multiplier g)"
  by (simp_all add: update_notes_eq Let_def)

lemma counters_ok_step: "counters_ok g \<Longrightarrow> counters_ok (step e g)"
proof (cases e)
  case (Spawn lane)
  assume "counters_ok g"
  then show ?thesis by (simp add: Spawn counters_ok_def spawn_note_def)
next
  case (UpdateNotes dt)
  assume "counters_ok g"
  then show ?thesis
    by (simp add: UpdateNotes counters_ok_def update_notes_counters score_update_notes
        stepFunction_def)
next
  case (HitLane lane)
  assume "counters_ok g"
  then show ?thesis
    by (simp add: HitLane counters_ok_def hit_note_in_lane_counters)
next
  case RemoveOld
  assume "counters_ok g"
  then show ?thesis by (simp add: RemoveOld counters_ok_def remove_old_notes_def)
qed

lemma score_step_mono: "score g \<le> score (step e g)"
proof (cases e)
  case (HitLane lane)
  have "0 \<le> 100 * stepFunction (combo g + 1)"
    using stepFunction_range [of "combo g + 1"] by simp
  then have "score g \<le> max 1 (score g + 100 * stepFunction (combo g + 1))"
    by linarith
  then show ?thesis
    by (simp add: HitLane hit_note_in_lane_counters)
qed (simp_all add: spawn_note_def score_update_notes remove_old_notes_def)

lemma counters_ok_play: "counters_ok g \<Longrightarrow> counters_ok (play evs g)"
  by (induction evs arbitrary: g) (simp_all add: counters_ok_step)

lemma score_play_mono: "score g \<le> score (play evs g)"
proof (induction evs arbitrary: g)
  case Nil
  show ?case by simp
next
  case (Cons e evs)
  have "score g \<le> score (step e g)" by (rule score_step_mono)
  also have "\<dots> \<le> score (play evs (step e g))" by (rule Cons.IH)
  finally show ?case by simp
qed

lemma play_append: "play (evs @ evs') g = play evs' (play evs g)"
  by (induction evs arbitrary: g) simp_all

lemma counters_ok_init: "counters_ok (init_game speed)"
  by (simp add: counters_ok_def init_game_def stepFunction_def)

text \<open>
  Claim C3. A session starts with score 1, combo 0 and multiplier 1. After every
  sequence of events the score is at least 1, it never decreases when the session goes
  on, and the multiplier is the step function of the combo: 4 from 30, 3 from 20, 2
  from 10, else 1. Hits are the \<open>HitLane\<close> events that find a note, misses the
  \<open>UpdateNotes\<close> events in which a note crosses the miss line.
\<close>

theorem score_monotone_multiplier_step:
  "score (init_game speed) = 1 \<and> combo (init_game speed) = 0 \<and>
   combo_multiplier (init_game speed) = 1 \<and>
   1 \<le> score (play evs (init_game speed)) \<and>
   score (play evs (init_game speed)) \<le> score (play (evs @ evs') (init_game speed)) \<and>
   combo_multiplier (play evs (init_game speed)) =
     (if combo (play evs (init_game speed)) \<ge> 30 then 4
      else if combo (play evs (init_game speed)) \<ge> 20 then 3
      else if combo (play evs (init_game speed)) \<ge> 10 then 2 else 1)"
proof -
  have ok: "counters_ok (play evs (init_game speed))"
    by (rule counters_ok_play [OF counters_ok_init])
  have mono: "score (play evs (init_game speed)) \<le> score (play (evs @ evs') (init_game speed))"
    unfolding play_append by (rule score_play_mono)
  show ?thesis
    using ok mono by (simp add: counters_ok_def stepFunction_def init_game_def)
qed

section \<open>Misses in \<^verbatim>\<open>update_notes\<close>\<close>

lemma nth_update_notes:
  "i < length (game_notes g) \<Longrightarrow>
   game_notes (update_notes dt g) ! i = advance_note (note_speed g * dt * 60) (game_notes g ! i)"
  by (simp add: notes_update_notes)

lemma list_ex_nth: "list_ex P xs \<longleftrightarrow> (\<exists>i < length xs. P (xs ! i))"
  unfolding list_ex_iff by (metis in_set_conv_nth)

lemma advance_note_missed:
  "note_missed (advance_note v n) \<longleftrightarrow> note_missed n \<or> crosses v n"
  by (auto simp: advance_note_def crosses_def active_def)

lemma advance_note_inactive: "\<not> active n \<Longrightarrow> advance_note v n = n"
  by (simp add: advance_note_def)

lemma advance_note_y: "active n \<Longrightarrow> note_y (advance_note v n) = note_y n + v"
  by (simp add: advance_note_def)

lemma advance_note_hit: "note_hit (advance_note v n) = note_hit n"
  by (simp add: advance_note_def)

lemma step_keeps_index:
  assumes "e \<noteq> RemoveOld" and "i < length (game_notes g)"
  shows "i < length (game_notes (step e g)) \<and>
         (note_missed (game_notes g ! i) \<longrightarrow> note_missed (game_notes (step e g) ! i))"
proof (cases e)
  case (Spawn lane)
  then show ?thesis using assms(2) by (simp add: spawn_note_def nth_append)
next
  case (UpdateNotes dt)
  then show ?thesis
    using assms(2) by (simp add: length_update_notes nth_update_notes advance_note_missed)
next
  case (HitLane lane)
  show ?thesis
    using hit_note_in_lane_cases [of g lane]
  proof cases
    case miss
    then show ?thesis using assms(2) by (simp add: HitLane)
  next
    case (hit k)
    then show ?thesis
      using assms(2) by (cases "i = k") (simp_all add: HitLane)
  qed
next
  case RemoveOld
  then show ?thesis using assms(1) by simp
qed

lemma miss_transitions_eq:
  "RemoveOld \<notin> set evs \<Longrightarrow> i < length (game_notes g) \<Longrightarrow>
   miss_transitions i evs g =
     (if \<not> note_missed (game_notes g ! i) \<and> note_missed (game_notes (play evs g) ! i)
      then 1 else 0)"
proof (induction evs arbitrary: g)
  case Nil
  show ?case by simp
next
  case (Cons e evs)
  have e: "e \<noteq> RemoveOld" and rest: "RemoveOld \<notin> set evs"
    using Cons.prems(1) by auto
  have keep: "i < length (game_notes (step e g))"
    and mono: "note_missed (game_notes g ! i) \<longrightarrow> note_missed (game_notes (step e g) ! i)"
    using step_keeps_index [OF e Cons.prems(2)] by simp_all
  have stay: "note_missed (game_notes (step e g) ! i) \<longrightarrow>
              note_missed (game_notes (play evs (step e g)) ! i)"
    using rest keep
  proof (induction evs arbitrary: g e)
    case Nil
    show ?case by simp
  next
    case (Cons e' evs)
    have e': "e' \<noteq> RemoveOld" and rest': "RemoveOld \<notin> set evs"
      using Cons.prems(1) by auto
    have "i < length (game_notes (step e' (step e g)))"
      and "note_missed (game_notes (step e g) ! i) \<longrightarrow>
           note_missed (game_notes (step e' (step e g)) ! i)"
      using step_keeps_index [OF e' Cons.prems(2)] by simp_all
    then show ?case
      using Cons.IH [OF rest', of e' "step e g"] by simp
  qed
  show ?case
    using Cons.IH [OF rest keep] mono stay by auto
qed

lemma active_below_line_step:
  assumes "\<forall>n \<in> set (game_notes g). active n \<longrightarrow> note_y n \<le> real_of_int (HIT_ZONE_Y + HIT_TOLERANCE)"
  shows "\<forall>n \<in> set (game_notes (step e g)). active n \<longrightarrow> note_y n \<le> real_of_int (HIT_ZONE_Y + HIT_TOLERANCE)"
proof (cases e)
  case (Spawn lane)
  then show ?thesis
    using assms by (auto simp: spawn_note_def HIT_ZONE_Y_def HIT_TOLERANCE_def WINDOW_HEIGHT_def)
next
  case (UpdateNotes dt)
  then show ?thesis
    by (auto simp: notes_update_notes advance_note_def active_def)
next
  case (HitLane lane)
  show ?thesis
    using hit_note_in_lane_cases [of g lane]
  proof cases
    case miss
    then show ?thesis using assms by (simp add: HitLane)
  next
    case (hit k)
    have "set (game_notes (step e g)) \<subseteq> insert ((game_notes g ! k)\<lparr>note_hit := True\<rparr>) (set (game_notes g))"
      using hit(4) by (simp add: HitLane set_update_subset_insert)
    then show ?thesis
      using assms by (auto simp: active_def)
  qed
next
  case RemoveOld
  then show ?thesis using assms by (simp add: remove_old_notes_def)
qed

lemma active_below_line_play:
  "\<forall>n \<in> set (game_notes g). active n \<longrightarrow> note_y n \<le> real_of_int (HIT_ZONE_Y + HIT_TOLERANCE) \<Longrightarrow>
   \<forall>n \<in> set (game_notes (play evs g)). active n \<longrightarrow> note_y n \<le> real_of_int (HIT_ZONE_Y + HIT_TOLERANCE)"
proof (induction evs arbitrary: g)
  case Nil
  then show ?case by simp
next
  case (Cons e evs)
  show ?case
    using Cons.IH [OF active_below_line_step [OF Cons.prems, of e]] by simp
qed

text \<open>
  Claim C4. In a call of \<^verbatim>\<open>update_notes\<close> the score is unchanged; every Active note
  whose new \<open>y\<close> is above \<open>HIT_ZONE_Y + HIT_TOLERANCE\<close> becomes Missed, and combo
  and multiplier are then 0 and 1; a note becomes Missed in the call only if it was
  Active and its new \<open>y\<close> is above that line; a call in which no note becomes Missed
  leaves combo and multiplier alone. Active notes of a session are never above the
  line, so the call in which a note becomes Missed is the first that takes it across.
  Over a session (without the note filter, which renumbers the notes) the number of
  steps in which a note becomes Missed is 1 if it goes from not Missed to Missed, else
  0: exactly once for a note that is missed.
\<close>

theorem update_notes_miss_once:
  "length (game_notes (update_notes dt g)) = length (game_notes g) \<and>
   score (update_notes dt g) = score g \<and>
   (\<forall>i < length (game_notes g).
      active (game_notes g ! i) \<and>
      note_y (game_notes (update_notes dt g) ! i) > real_of_int (HIT_ZONE_Y + HIT_TOLERANCE) \<longrightarrow>
        note_missed (game_notes (update_notes dt g) ! i) \<and>
        \<not> note_hit (game_notes (update_notes dt g) ! i) \<and>
        combo (update_notes dt g) = 0 \<and> combo_multiplier (update_notes dt g) = 1) \<and>
   (\<forall>i < length (game_notes g).
      \<not> note_missed (game_notes g ! i) \<and> note_missed (game_notes (update_notes dt g) ! i) \<longrightarrow>
        active (game_notes g ! i) \<and>
        note_y (game_notes (update_notes dt g) ! i) = note_y (game_notes g ! i) + note_speed g * dt * 60 \<and>
        note_y (game_notes (update_notes dt g) ! i) > real_of_int (HIT_ZONE_Y + HIT_TOLERANCE)) \<and>
   ((\<forall>i < length (game_notes g).
       note_missed (game_notes (update_notes dt g) ! i) \<longrightarrow> note_missed (game_notes g ! i)) \<longrightarrow>
      combo (update_notes dt g) = combo g \<and>
      combo_multiplier (update_notes dt g) = combo_multiplier g) \<and>
   (\<forall>n \<in> set (game_notes (play evs0 (init_game speed))).
      active n \<longrightarrow> note_y n \<le> real_of_int (HIT_ZONE_Y + HIT_TOLERANCE)) \<and>
   (k < length (game_notes g) \<and> RemoveOld \<notin> set evs \<longrightarrow>
      miss_transitions k evs g =
        (if \<not> note_missed (game_notes g ! k) \<and> note_missed (game_notes (play evs g) ! k)
         then 1 else 0))"
proof -
  let ?v = "note_speed g * dt * 60"
  let ?g = "update_notes dt g"
  have missed_iff: "note_missed (game_notes ?g ! i) \<longleftrightarrow>
      note_missed (game_notes g ! i) \<or> crosses ?v (game_notes g ! i)"
    if "i < length (game_notes g)" for i
    using that by (simp add: nth_update_notes advance_note_missed)
  have c3: "note_missed (game_notes ?g ! i) \<and> \<not> note_hit (game_notes ?g ! i) \<and>
            combo ?g = 0 \<and> combo_multiplier ?g = 1"
    if i: "i < length (game_notes g)" and act: "active (game_notes g ! i)"
      and y: "note_y (game_notes ?g ! i) > real_of_int (HIT_ZONE_Y + HIT_TOLERANCE)" for i
  proof -
    have cr: "crosses ?v (game_notes g ! i)"
      using i act y by (simp add: nth_update_notes advance_note_y crosses_def)
    then have ex: "list_ex (crosses ?v) (game_notes g)"
      using i by (auto simp: list_ex_nth)
    show ?thesis
      using i act cr ex
      by (simp add: advance_note_missed update_notes_counters nth_update_notes advance_note_hit
          active_def)
  qed
  have c4: "active (game_notes g ! i) \<and>
            note_y (game_notes ?g ! i) = note_y (game_notes g ! i) + ?v \<and>
            note_y (game_notes ?g ! i) > real_of_int (HIT_ZONE_Y + HIT_TOLERANCE)"
    if i: "i < length (game_notes g)" and before: "\<not> note_missed (game_notes g ! i)"
      and after: "note_missed (game_notes ?g ! i)" for i
  proof -
    have cr: "crosses ?v (game_notes g ! i)"
      using i before after by (simp add: missed_iff)
    then show ?thesis
      using i by (simp add: nth_update_notes advance_note_y crosses_def)
  qed
  have c5: "combo ?g = combo g \<and> combo_multiplier ?g = combo_multiplier g"
    if none: "\<forall>i < length (game_notes g).
       note_missed (game_notes ?g ! i) \<longrightarrow> note_missed (game_notes g ! i)"
  proof -
    have "\<not> list_ex (crosses ?v) (game_notes g)"
    proof
      assume "list_ex (crosses ?v) (game_notes g)"
      then obtain i where i: "i < length (game_notes g)" and cr: "crosses ?v (game_notes g ! i)"
        by (auto simp: list_ex_nth)
      then have "note_missed (game_notes ?g ! i)" by (simp add: missed_iff)
      then have "note_missed (game_notes g ! i)" using none i by blast
      then show False using cr by (simp add: crosses_def active_def)
    qed
    then show ?thesis by (simp add: update_notes_counters)
  qed
  have c6: "\<forall>n \<in> set (game_notes (play evs0 (init_game speed))).
      active n \<longrightarrow> note_y n \<le> real_of_int (HIT_ZONE_Y + HIT_TOLERANCE)"
    by (rule active_below_line_play) (simp add: init_game_def)
  have c7: "miss_transitions k evs g =
        (if \<not> note_missed (game_notes g ! k) \<and> note_missed (game_notes (play evs g) ! k)
         then 1 else 0)"
    if "k < length (game_notes g)" and "RemoveOld \<notin> set evs"
    by (rule miss_transitions_eq [OF that(2) that(1)])
  have len: "length (game_notes ?g) = length (game_notes g)"
    by (rule length_update_notes)
  have sc: "score ?g = score g"
    by (rule score_update_notes)
  have all3: "\<forall>i < length (game_notes g).
      active (game_notes g ! i) \<and>
      note_y (game_notes ?g ! i) > real_of_int (HIT_ZONE_Y + HIT_TOLERANCE) \<longrightarrow>
        note_missed (game_notes ?g ! i) \<and> \<not> note_hit (game_notes ?g ! i) \<and>
        combo ?g = 0 \<and> combo_multiplier ?g = 1"
    using c3 by blast
  have all4: "\<forall>i < length (game_notes g).
      \<not> note_missed (game_notes g ! i) \<and> note_missed (game_notes ?g ! i) \<longrightarrow>
        active (game_notes g ! i) \<and>
        note_y (game_notes ?g ! i) = note_y (game_notes g ! i) + ?v \<and>
        note_y (game_notes ?g ! i) > real_of_int (HIT_ZONE_Y + HIT_TOLERANCE)"
    using c4 by blast
  have imp5: "(\<forall>i < length (game_notes g).
       note_missed (game_notes ?g ! i) \<longrightarrow> note_missed (game_notes g ! i)) \<longrightarrow>
      combo ?g = combo g \<and> combo_multiplier ?g = combo_multiplier g"
    using c5 by blast
  have imp7: "k < length (game_notes g) \<and> RemoveOld \<notin> set evs \<longrightarrow>
      miss_transitions k evs g =
        (if \<not> note_missed (game_notes g ! k) \<and> note_missed (game_notes (play evs g) ! k)
         then 1 else 0)"
    using c7 by blast
  show ?thesis
    by (intro conjI; fact)
qed

lemma stacked_game_counters:
  "score stacked_game = 1" "combo stacked_game = 0" "combo_multiplier stacked_game = 1"
  "note_speed stacked_game = 1"
  by (simp_all add: stacked_game_def update_notes_eq spawn_note_def init_game_def Let_def
      advance_note_def active_def crosses_def HIT_ZONE_Y_def HIT_TOLERANCE_def WINDOW_HEIGHT_def)

lemma stacked_game_hit_notes:
  "game_notes stacked_game_hit =
     [\<lparr>note_lane = 0, note_y = 740, note_hit = True, note_missed = False\<rparr>,
      \<lparr>note_lane = 0, note_y = 680, note_hit = False, note_missed = False\<rparr>]"
  by (simp add: stacked_game_hit_def game_notes_hit_note_in_lane stacked_game_notes hittable_def
      HIT_ZONE_Y_def HIT_TOLERANCE_def WINDOW_HEIGHT_def)

lemma hit_first_stacked: "hit_first 0 (game_notes stacked_game) \<noteq> None"
  by (simp add: stacked_game_notes hittable_def HIT_ZONE_Y_def HIT_TOLERANCE_def WINDOW_HEIGHT_def)

lemma stacked_game_hit_counters:
  "score stacked_game_hit = 101" "combo stacked_game_hit = 1"
  "combo_multiplier stacked_game_hit = 1"
  using hit_first_stacked
  by (simp_all add: stacked_game_hit_def hit_note_in_lane_counters stacked_game_counters
      stepFunction_def)

lemma note_speed_hit_note_in_lane: "note_speed (fst (hit_note_in_lane lane g)) = note_speed g"
  by (simp add: hit_note_in_lane_def register_hit_def Let_def split: option.splits)

lemma stacked_game_hit_speed: "note_speed stacked_game_hit = 1"
  by (simp add: stacked_game_hit_def note_speed_hit_note_in_lane stacked_game_counters)

lemma stacked_game_hit_update2:
  "game_notes (update_notes 2 stacked_game_hit) =
     [\<lparr>note_lane = 0, note_y = 740, note_hit = True, note_missed = False\<rparr>,
      \<lparr>note_lane = 0, note_y = 800, note_hit = False, note_missed = True\<rparr>]"
  by (simp add: notes_update_notes stacked_game_hit_notes stacked_game_hit_speed advance_note_def
      active_def HIT_ZONE_Y_def HIT_TOLERANCE_def WINDOW_HEIGHT_def)

lemma stacked_game_hit_update_half:
  "game_notes (update_notes (1/2) stacked_game_hit) =
     [\<lparr>note_lane = 0, note_y = 740, note_hit = True, note_missed = False\<rparr>,
      \<lparr>note_lane = 0, note_y = 710, note_hit = False, note_missed = False\<rparr>]"
  by (simp add: notes_update_notes stacked_game_hit_notes stacked_game_hit_speed advance_note_def
      active_def HIT_ZONE_Y_def HIT_TOLERANCE_def WINDOW_HEIGHT_def)

theorem update_notes_miss_once_witness:
  "(1::nat) < length (game_notes stacked_game_hit) \<and>
   active (game_notes stacked_game_hit ! 1) \<and>
   \<not> note_missed (game_notes stacked_game_hit ! 1) \<and>
   note_y (game_notes (update_notes 2 stacked_game_hit) ! 1) > real_of_int (HIT_ZONE_Y + HIT_TOLERANCE) \<and>
   note_missed (game_notes (update_notes 2 stacked_game_hit) ! 1) \<and>
   combo stacked_game_hit = 1 \<and>
   combo (update_notes 2 stacked_game_hit) = 0 \<and>
   combo_multiplier (update_notes 2 stacked_game_hit) = 1 \<and>
   score (update_notes 2 stacked_game_hit) = 101 \<and>
   length (game_notes stacked_game_hit) = 2 \<and>
   \<not> note_missed (game_notes (update_notes (1/2) stacked_game_hit) ! 0) \<and>
   \<not> note_missed (game_notes (update_notes (1/2) stacked_game_hit) ! 1) \<and>
   combo (update_notes (1/2) stacked_game_hit) = 1 \<and>
   active (game_notes stacked_game ! 0) \<and>
   note_y (game_notes stacked_game ! 0) \<le> real_of_int (HIT_ZONE_Y + HIT_TOLERANCE) \<and>
   RemoveOld \<notin> set [UpdateNotes 2, UpdateNotes 1] \<and>
   note_missed (game_notes (play [UpdateNotes 2, UpdateNotes 1] stacked_game_hit) ! 1) \<and>
   miss_transitions 1 [UpdateNotes 2, UpdateNotes 1] stacked_game_hit = 1"
proof -
  note at_two =
    update_notes_miss_once [of 2 stacked_game_hit
      "[Spawn 0, UpdateNotes 1, Spawn 0, UpdateNotes (34 / 3)]" 1 1 "[UpdateNotes 2, UpdateNotes 1]"]
  note at_half =
    update_notes_miss_once [of "1/2" stacked_game_hit "[]" 1 1 "[]"]
  note score_two = at_two [THEN conjunct2, THEN conjunct1]
  note miss_two = at_two [THEN conjunct2, THEN conjunct2, THEN conjunct1, rule_format]
  note below = at_two [THEN conjunct2, THEN conjunct2, THEN conjunct2, THEN conjunct2,
      THEN conjunct2, THEN conjunct1, rule_format]
  note once_two = at_two [THEN conjunct2, THEN conjunct2, THEN conjunct2, THEN conjunct2,
      THEN conjunct2, THEN conjunct2, rule_format]
  note keep_half = at_half [THEN conjunct2, THEN conjunct2, THEN conjunct2, THEN conjunct2,
      THEN conjunct1, rule_format]
  have len: "length (game_notes stacked_game_hit) = 2"
    by (simp add: stacked_game_hit_notes)
  have one: "(1::nat) < length (game_notes stacked_game_hit)"
    by (simp add: len)
  have act: "active (game_notes stacked_game_hit ! 1)"
    by (simp add: stacked_game_hit_notes active_def)
  have not_missed: "\<not> note_missed (game_notes stacked_game_hit ! 1)"
    by (simp add: stacked_game_hit_notes)
  have y: "note_y (game_notes (update_notes 2 stacked_game_hit) ! 1) > real_of_int (HIT_ZONE_Y + HIT_TOLERANCE)"
    by (simp add: stacked_game_hit_update2 HIT_ZONE_Y_def HIT_TOLERANCE_def WINDOW_HEIGHT_def)
  have missed2: "note_missed (game_notes (update_notes 2 stacked_game_hit) ! 1) \<and>
      \<not> note_hit (game_notes (update_notes 2 stacked_game_hit) ! 1) \<and>
      combo (update_notes 2 stacked_game_hit) = 0 \<and>
      combo_multiplier (update_notes 2 stacked_game_hit) = 1"
    by (rule miss_two [OF one conjI [OF act y]])
  have missed_after: "note_missed (game_notes (update_notes 2 stacked_game_hit) ! 1)"
    and combo_reset: "combo (update_notes 2 stacked_game_hit) = 0"
    and multiplier_reset: "combo_multiplier (update_notes 2 stacked_game_hit) = 1"
    using missed2 by blast+
  have combo1: "combo stacked_game_hit = 1"
    by (rule stacked_game_hit_counters)
  have sc: "score (update_notes 2 stacked_game_hit) = 101"
    unfolding score_two by (rule stacked_game_hit_counters)
  have nm0: "\<not> note_missed (game_notes (update_notes (1/2) stacked_game_hit) ! 0)"
    and nm1: "\<not> note_missed (game_notes (update_notes (1/2) stacked_game_hit) ! 1)"
    by (simp_all add: stacked_game_hit_update_half)
  have none_half: "note_missed (game_notes stacked_game_hit ! i)"
    if "i < length (game_notes stacked_game_hit)"
      and "note_missed (game_notes (update_notes (1/2) stacked_game_hit) ! i)" for i
  proof -
    have "i = 0 \<or> i = 1" using that(1) len by auto
    then show ?thesis using nm0 nm1 that(2) by auto
  qed
  have combo_half: "combo (update_notes (1/2) stacked_game_hit) = 1"
    using keep_half [OF none_half] combo1 by simp
  have in0: "game_notes stacked_game ! 0 \<in>
      set (game_notes (play [Spawn 0, UpdateNotes 1, Spawn 0, UpdateNotes (34 / 3)] (init_game 1)))"
    unfolding stacked_game_def [symmetric] by (simp add: stacked_game_notes)
  have act0: "active (game_notes stacked_game ! 0)"
    by (simp add: stacked_game_notes active_def)
  have below0: "note_y (game_notes stacked_game ! 0) \<le> real_of_int (HIT_ZONE_Y + HIT_TOLERANCE)"
    by (rule below [OF in0 act0])
  have no_filter: "RemoveOld \<notin> set [UpdateNotes 2, UpdateNotes 1]"
    by simp
  have missed_end:
    "note_missed (game_notes (play [UpdateNotes 2, UpdateNotes 1] stacked_game_hit) ! 1)"
    by (simp add: notes_update_notes [of 1] stacked_game_hit_update2 advance_note_def active_def)
  have once: "miss_transitions 1 [UpdateNotes 2, UpdateNotes 1] stacked_game_hit = 1"
    using once_two [OF conjI [OF one no_filter]] not_missed missed_end by simp
  show ?thesis
    by (intro conjI; fact)
qed

section \<open>Notes that are Hit or Missed\<close>

lemma update_notes_keeps_inactive:
  "i < length (game_notes g) \<Longrightarrow> \<not> active (game_notes g ! i) \<Longrightarrow>
   game_notes (update_notes dt g) ! i = game_notes g ! i"
  by (simp add: nth_update_notes advance_note_inactive)

lemma hittable_active: "hittable lane n \<Longrightarrow> active n"
  by (simp add: hittable_def active_def)

lemma hittable_below_line:
  "hittable lane n \<Longrightarrow> note_y n \<le> real_of_int (HIT_ZONE_Y + HIT_TOLERANCE)"
  unfolding hittable_def by (simp add: abs_le_iff)

lemma inactive_stays_step:
  assumes "n \<in> set (game_notes g)" and "\<not> active n"
    and "note_y n < real_of_int (WINDOW_HEIGHT + 100)"
  shows "n \<in> set (game_notes (step e g))"
proof (cases e)
  case (Spawn lane)
  then show ?thesis using assms(1) by (simp add: spawn_note_def)
next
  case (UpdateNotes dt)
  have "advance_note (note_speed g * dt * 60) n = n"
    using assms(2) by (rule advance_note_inactive)
  then have "n \<in> advance_note (note_speed g * dt * 60) ` set (game_notes g)"
    using assms(1) by (metis imageI)
  then show ?thesis by (simp add: UpdateNotes notes_update_notes)
next
  case (HitLane lane)
  show ?thesis
    using hit_note_in_lane_cases [of g lane]
  proof cases
    case miss
    then show ?thesis using assms(1) by (simp add: HitLane)
  next
    case (hit k)
    obtain j where j: "j < length (game_notes g)" and nj: "game_notes g ! j = n"
      using assms(1) by (auto simp: in_set_conv_nth)
    have "j \<noteq> k"
      using hit(2) nj assms(2) hittable_active by blast
    then have "(game_notes g)[k := (game_notes g ! k)\<lparr>note_hit := True\<rparr>] ! j = n"
      using nj by simp
    moreover have "j < length ((game_notes g)[k := (game_notes g ! k)\<lparr>note_hit := True\<rparr>])"
      using j by simp
    ultimately have "n \<in> set ((game_notes g)[k := (game_notes g ! k)\<lparr>note_hit := True\<rparr>])"
      by (metis nth_mem)
    then show ?thesis by (simp add: HitLane hit(4))
  qed
next
  case RemoveOld
  then show ?thesis using assms(1,3) by (simp add: remove_old_notes_def)
qed

lemma inactive_stays_play:
  "n \<in> set (game_notes g) \<Longrightarrow> \<not> active n \<Longrightarrow>
   note_y n < real_of_int (WINDOW_HEIGHT + 100) \<Longrightarrow> n \<in> set (game_notes (play evs g))"
proof (induction evs arbitrary: g)
  case Nil
  then show ?case by simp
next
  case (Cons e evs)
  have "n \<in> set (game_notes (step e g))"
    using Cons.prems by (rule inactive_stays_step)
  then show ?case
    using Cons.IH Cons.prems(2,3) by simp
qed

lemma hit_below_line_step:
  assumes "\<forall>n \<in> set (game_notes g). note_hit n \<longrightarrow> note_y n \<le> real_of_int (HIT_ZONE_Y + HIT_TOLERANCE)"
  shows "\<forall>n \<in> set (game_notes (step e g)). note_hit n \<longrightarrow> note_y n \<le> real_of_int (HIT_ZONE_Y + HIT_TOLERANCE)"
proof (cases e)
  case (Spawn lane)
  then show ?thesis using assms by (simp add: spawn_note_def)
next
  case (UpdateNotes dt)
  show ?thesis
  proof (intro ballI impI)
    fix n assume n: "n \<in> set (game_notes (step e g))" and h: "note_hit n"
    from n obtain n0 where n0: "n0 \<in> set (game_notes g)"
      and eq: "n = advance_note (note_speed g * dt * 60) n0"
      by (auto simp: UpdateNotes notes_update_notes)
    have "note_hit n0" using h eq by (simp add: advance_note_hit)
    then have "n = n0" and "note_y n0 \<le> real_of_int (HIT_ZONE_Y + HIT_TOLERANCE)"
      using eq n0 assms by (simp_all add: advance_note_def active_def)
    then show "note_y n \<le> real_of_int (HIT_ZONE_Y + HIT_TOLERANCE)" by simp
  qed
next
  case (HitLane lane)
  show ?thesis
    using hit_note_in_lane_cases [of g lane]
  proof cases
    case miss
    then show ?thesis using assms by (simp add: HitLane)
  next
    case (hit k)
    have sub: "set (game_notes (step e g)) \<subseteq>
        insert ((game_notes g ! k)\<lparr>note_hit := True\<rparr>) (set (game_notes g))"
      using hit(4) by (simp add: HitLane set_update_subset_insert)
    have new: "note_y ((game_notes g ! k)\<lparr>note_hit := True\<rparr>) \<le> real_of_int (HIT_ZONE_Y + HIT_TOLERANCE)"
      using hittable_below_line [OF hit(2)] by simp
    show ?thesis
      using sub new assms by blast
  qed
next
  case RemoveOld
  then show ?thesis using assms by (simp add: remove_old_notes_def)
qed

lemma hit_below_line_play:
  "\<forall>n \<in> set (game_notes g). note_hit n \<longrightarrow> note_y n \<le> real_of_int (HIT_ZONE_Y + HIT_TOLERANCE) \<Longrightarrow>
   \<forall>n \<in> set (game_notes (play evs g)). note_hit n \<longrightarrow> note_y n \<le> real_of_int (HIT_ZONE_Y + HIT_TOLERANCE)"
proof (induction evs arbitrary: g)
  case Nil
  then show ?case by simp
next
  case (Cons e evs)
  show ?case
    using Cons.IH [OF hit_below_line_step [OF Cons.prems, of e]] by simp
qed

lemma line_below_filter:
  "real_of_int (HIT_ZONE_Y + HIT_TOLERANCE) < real_of_int (WINDOW_HEIGHT + 100)"
  by (simp add: HIT_ZONE_Y_def HIT_TOLERANCE_def WINDOW_HEIGHT_def)

text \<open>
  Claim C5. \<^verbatim>\<open>update_notes\<close> leaves a note whose \<^verbatim>\<open>hit\<close> or \<^verbatim>\<open>missed\<close> flag is set
  as it is, its \<open>y\<close> included. A Hit note of a session has \<open>y\<close> at most
  \<open>HIT_ZONE_Y + HIT_TOLERANCE\<close> and stays in \<^verbatim>\<open>self.notes\<close> however the session goes
  on, the note filter included; so does a Missed note whose \<open>y\<close> is below
  \<open>WINDOW_HEIGHT + 100\<close>.
\<close>

theorem frozen_notes_remain:
  "(i < length (game_notes g) \<and>
    (note_hit (game_notes g ! i) \<or> note_missed (game_notes g ! i)) \<longrightarrow>
      game_notes (update_notes dt g) ! i = game_notes g ! i) \<and>
   (n \<in> set (game_notes (play evs0 (init_game speed))) \<and> note_hit n \<longrightarrow>
      note_y n \<le> real_of_int (HIT_ZONE_Y + HIT_TOLERANCE) \<and>
      n \<in> set (game_notes (play evs (play evs0 (init_game speed))))) \<and>
   (m \<in> set (game_notes g) \<and> note_missed m \<and>
    note_y m < real_of_int (WINDOW_HEIGHT + 100) \<longrightarrow>
      m \<in> set (game_notes (play evs g)))"
proof (intro conjI impI)
  assume a: "i < length (game_notes g) \<and>
    (note_hit (game_notes g ! i) \<or> note_missed (game_notes g ! i))"
  then have "\<not> active (game_notes g ! i)"
    by (auto simp: active_def)
  then show "game_notes (update_notes dt g) ! i = game_notes g ! i"
    using a by (simp add: update_notes_keeps_inactive)
next
  assume a: "n \<in> set (game_notes (play evs0 (init_game speed))) \<and> note_hit n"
  have "\<forall>n \<in> set (game_notes (play evs0 (init_game speed))).
          note_hit n \<longrightarrow> note_y n \<le> real_of_int (HIT_ZONE_Y + HIT_TOLERANCE)"
    by (rule hit_below_line_play) (simp add: init_game_def)
  then show below: "note_y n \<le> real_of_int (HIT_ZONE_Y + HIT_TOLERANCE)"
    using a by blast
  have "note_y n < real_of_int (WINDOW_HEIGHT + 100)"
    using below line_below_filter by linarith
  moreover have "\<not> active n"
    using a by (simp add: active_def)
  ultimately show "n \<in> set (game_notes (play evs (play evs0 (init_game speed))))"
    using a inactive_stays_play by blast
next
  assume a: "m \<in> set (game_notes g) \<and> note_missed m \<and>
    note_y m < real_of_int (WINDOW_HEIGHT + 100)"
  then have "\<not> active m"
    by (simp add: active_def)
  then show "m \<in> set (game_notes (play evs g))"
    using a inactive_stays_play by blast
qed

lemma play_to_stacked_game_hit:
  "play [Spawn 0, UpdateNotes 1, Spawn 0, UpdateNotes (34 / 3), HitLane 0] (init_game 1) =
     stacked_game_hit"
  by (simp only: stacked_game_hit_def stacked_game_def play.simps step.simps)

theorem frozen_notes_remain_witness:
  "0 < length (game_notes stacked_game_hit) \<and>
   note_hit (game_notes stacked_game_hit ! 0) \<and>
   game_notes (update_notes 2 stacked_game_hit) ! 0 = game_notes stacked_game_hit ! 0 \<and>
   \<lparr>note_lane = 0, note_y = 740, note_hit = True, note_missed = False\<rparr> \<in>
     set (game_notes
       (play [Spawn 0, UpdateNotes 1, Spawn 0, UpdateNotes (34 / 3), HitLane 0] (init_game 1))) \<and>
   \<lparr>note_lane = 0, note_y = 740, note_hit = True, note_missed = False\<rparr> \<in>
     set (game_notes
       (play [UpdateNotes 2, RemoveOld, UpdateNotes 100, RemoveOld]
         (play [Spawn 0, UpdateNotes 1, Spawn 0, UpdateNotes (34 / 3), HitLane 0] (init_game 1)))) \<and>
   \<lparr>note_lane = 0, note_y = 800, note_hit = False, note_missed = True\<rparr> \<in>
     set (game_notes (update_notes 2 stacked_game_hit)) \<and>
   (800 :: real) < real_of_int (WINDOW_HEIGHT + 100) \<and>
   \<lparr>note_lane = 0, note_y = 800, note_hit = False, note_missed = True\<rparr> \<in>
     set (game_notes (play [RemoveOld, UpdateNotes 5, RemoveOld] (update_notes 2 stacked_game_hit)))"
proof -
  let ?hit = "\<lparr>note_lane = 0, note_y = 740, note_hit = True, note_missed = False\<rparr>"
  let ?missed = "\<lparr>note_lane = 0, note_y = 800, note_hit = False, note_missed = True\<rparr>"
  let ?evs0 = "[Spawn 0, UpdateNotes 1, Spawn 0, UpdateNotes (34 / 3), HitLane 0]"
  note first =
    frozen_notes_remain [of 0 stacked_game_hit 2 ?hit ?evs0 1
      "[UpdateNotes 2, RemoveOld, UpdateNotes 100, RemoveOld]" ?missed]
  note second =
    frozen_notes_remain [of 0 "update_notes 2 stacked_game_hit" 2 ?hit ?evs0 1
      "[RemoveOld, UpdateNotes 5, RemoveOld]" ?missed]
  note frozen = first [THEN conjunct1, rule_format]
  note hit_stays = first [THEN conjunct2, THEN conjunct1, rule_format]
  note missed_stays = second [THEN conjunct2, THEN conjunct2, rule_format]
  have len: "0 < length (game_notes stacked_game_hit)"
    by (simp add: stacked_game_hit_notes)
  have is_hit: "note_hit (game_notes stacked_game_hit ! 0)"
    by (simp add: stacked_game_hit_notes)
  have same: "game_notes (update_notes 2 stacked_game_hit) ! 0 = game_notes stacked_game_hit ! 0"
    by (rule frozen [OF conjI [OF len disjI1 [OF is_hit]]])
  have hit_in: "?hit \<in> set (game_notes (play ?evs0 (init_game 1)))"
    unfolding play_to_stacked_game_hit by (simp add: stacked_game_hit_notes)
  have hit_flag: "note_hit ?hit"
    by simp
  have hit_later: "?hit \<in> set (game_notes
       (play [UpdateNotes 2, RemoveOld, UpdateNotes 100, RemoveOld] (play ?evs0 (init_game 1))))"
    using hit_stays [OF conjI [OF hit_in hit_flag]] by (rule conjunct2)
  have missed_in: "?missed \<in> set (game_notes (update_notes 2 stacked_game_hit))"
    by (simp add: stacked_game_hit_update2)
  have missed_flag: "note_missed ?missed"
    by simp
  have low: "(800 :: real) < real_of_int (WINDOW_HEIGHT + 100)"
    by (simp add: WINDOW_HEIGHT_def)
  have low': "note_y ?missed < real_of_int (WINDOW_HEIGHT + 100)"
    using low by simp
  have missed_later: "?missed \<in>
      set (game_notes (play [RemoveOld, UpdateNotes 5, RemoveOld] (update_notes 2 stacked_game_hit)))"
    by (rule missed_stays [OF conjI [OF missed_in conjI [OF missed_flag low']]])
  show ?thesis
    by (intro conjI; fact)
qed

section \<open>Malformed summaries in \<^verbatim>\<open>generate_chart\<close>\<close>

lemma generate_chart_zero_bpm:
  "bpm a = 0 \<Longrightarrow> generate_chart fuel rnd a difficulty = Some (Inl ZeroDivisionError)"
  by (simp add: generate_chart_def)

lemma chart_loop_empty_energy:
  assumes "energy_levels a = []" and "current_time < duration a"
  shows "chart_loop (Suc fuel) a difficulty base_density beat_interval rnd k current_time ns =
           Some (Inl IndexError)"
proof -
  have "py_index (energy_levels a) (min (py_int current_time) (int (length (energy_levels a)) - 1)) = None"
    using assms(1) by (simp add: py_index_def)
  then show ?thesis
    using assms(2) by (subst chart_loop.simps) (simp add: Let_def)
qed

lemma generate_chart_empty_energy:
  assumes "energy_levels a = []" and "bpm a \<noteq> 0" and "0 < duration a"
  shows "generate_chart (Suc fuel) rnd a difficulty = Some (Inl IndexError)"
  using assms(2) chart_loop_empty_energy [OF assms(1), of 0] assms(3)
  by (simp add: generate_chart_def Let_def)

lemma chart_loop_never_ends:
  assumes "beat_interval < 0" and "\<forall>k. 0 \<le> rnd k"
  shows "current_time < duration a \<Longrightarrow>
         chart_loop fuel a difficulty base_density beat_interval rnd k current_time ns \<noteq> Some (Inr chart)"
proof (induction fuel arbitrary: k current_time ns)
  case 0
  then show ?case by (subst chart_loop.simps) simp
next
  case (Suc fuel)
  have adv: "current_time + beat_interval * (0.5 + uniform 0 0.5 (rnd j)) * c < duration a"
    if "0 < c" for j c
  proof -
    have "0 \<le> rnd j" using assms(2) by blast
    then have "0 < 0.5 + uniform 0 0.5 (rnd j)"
      by (simp add: uniform_def)
    then have "beat_interval * (0.5 + uniform 0 0.5 (rnd j)) < 0"
      using assms(1) by (simp add: mult_neg_pos)
    then have "beat_interval * (0.5 + uniform 0 0.5 (rnd j)) * c < 0"
      using that by (simp add: mult_neg_pos)
    then show ?thesis using Suc.prems by linarith
  qed
  have step: "chart_loop fuel a difficulty base_density beat_interval rnd (Suc j)
       (current_time +
        (if difficulty = ''Expert'' then beat_interval * (0.5 + uniform 0 0.5 (rnd j)) * 0.7
         else if difficulty = ''Easy'' then beat_interval * (0.5 + uniform 0 0.5 (rnd j)) * 1.5
         else beat_interval * (0.5 + uniform 0 0.5 (rnd j)))) ns' \<noteq> Some (Inr chart)" for j ns'
  proof (rule Suc.IH)
    show "current_time +
        (if difficulty = ''Expert'' then beat_interval * (0.5 + uniform 0 0.5 (rnd j)) * 0.7
         else if difficulty = ''Easy'' then beat_interval * (0.5 + uniform 0 0.5 (rnd j)) * 1.5
         else beat_interval * (0.5 + uniform 0 0.5 (rnd j))) < duration a"
      using adv [of "0.7" j] adv [of "1.5" j] adv [of 1 j] by simp
  qed
  show ?case
    using Suc.prems step
    by (subst chart_loop.simps)
       (auto simp: Let_def split: option.splits sum.splits prod.splits)
qed

text \<open>
  Claim C6, as amended. \<^verbatim>\<open>generate_chart\<close> does not check its summary and has no
  fallback. With \<open>bpm = 0\<close> it raises \<^verbatim>\<open>ZeroDivisionError\<close>. With an empty
  \<^verbatim>\<open>energy_levels\<close>, a nonzero \<open>bpm\<close> and a positive duration it raises
  \<^verbatim>\<open>IndexError\<close> in the first iteration. With a negative \<open>bpm\<close> and a positive duration
  (draws not negative) the simulated time only falls, so no number of iterations ends
  the loop with a chart: the call raises or does not return.
\<close>

theorem generate_chart_malformed:
  "(bpm a = 0 \<longrightarrow> generate_chart fuel rnd a difficulty = Some (Inl ZeroDivisionError)) \<and>
   (energy_levels a = [] \<and> bpm a \<noteq> 0 \<and> 0 < duration a \<longrightarrow>
      generate_chart (Suc fuel) rnd a difficulty = Some (Inl IndexError)) \<and>
   (bpm a < 0 \<and> 0 < duration a \<and> (\<forall>k. 0 \<le> rnd k) \<longrightarrow>
      generate_chart fuel rnd a difficulty \<noteq> Some (Inr chart))"
proof (intro conjI impI)
  assume "bpm a = 0"
  then show "generate_chart fuel rnd a difficulty = Some (Inl ZeroDivisionError)"
    by (rule generate_chart_zero_bpm)
next
  assume "energy_levels a = [] \<and> bpm a \<noteq> 0 \<and> 0 < duration a"
  then show "generate_chart (Suc fuel) rnd a difficulty = Some (Inl IndexError)"
    by (simp add: generate_chart_empty_energy)
next
  assume a: "bpm a < 0 \<and> 0 < duration a \<and> (\<forall>k. 0 \<le> rnd k)"
  then have neg: "60 / bpm a < 0"
    by (simp add: divide_neg_neg divide_pos_neg)
  have loop: "chart_loop fuel a difficulty (density_multiplier difficulty) (60 / bpm a) rnd 0 0 [] \<noteq>
      Some (Inr ns)" for ns
    using a by (intro chart_loop_never_ends [OF neg]) simp_all
  show "generate_chart fuel rnd a difficulty \<noteq> Some (Inr chart)"
    using a loop by (auto simp: generate_chart_def Let_def split: option.splits sum.splits)
qed

text \<open>
  Claim C6 as stated fails: on the default summary with \<open>bpm\<close> set to 0, and on the
  default summary with its energy sequence emptied, the call raises and returns no
  chart.
\<close>

theorem generate_chart_no_fallback:
  "generate_chart 1000 rnd_half (get_default_analysis\<lparr>bpm := 0\<rparr>) ''Normal'' =
     Some (Inl ZeroDivisionError) \<and>
   generate_chart 1000 rnd_half (get_default_analysis\<lparr>energy_levels := []\<rparr>) ''Normal'' =
     Some (Inl IndexError)"
proof
  show "generate_chart 1000 rnd_half (get_default_analysis\<lparr>bpm := 0\<rparr>) ''Normal'' =
     Some (Inl ZeroDivisionError)"
    by (rule generate_chart_zero_bpm) simp
  have "generate_chart (Suc 999) rnd_half (get_default_analysis\<lparr>energy_levels := []\<rparr>) ''Normal'' =
     Some (Inl IndexError)"
    by (rule generate_chart_empty_energy) (simp_all add: get_default_analysis_def)
  then show "generate_chart 1000 rnd_half (get_default_analysis\<lparr>energy_levels := []\<rparr>) ''Normal'' =
     Some (Inl IndexError)"
    by simp
qed

theorem generate_chart_malformed_witness:
  "bpm (get_default_analysis\<lparr>bpm := 0\<rparr>) = 0 \<and>
   generate_chart 7 rnd_half (get_default_analysis\<lparr>bpm := 0\<rparr>) ''Easy'' =
     Some (Inl ZeroDivisionError) \<and>
   energy_levels (get_default_analysis\<lparr>energy_levels := []\<rparr>) = [] \<and>
   bpm (get_default_analysis\<lparr>energy_levels := []\<rparr>) \<noteq> 0 \<and>
   0 < duration (get_default_analysis\<lparr>energy_levels := []\<rparr>) \<and>
   generate_chart (Suc 7) rnd_half (get_default_analysis\<lparr>energy_levels := []\<rparr>) ''Easy'' =
     Some (Inl IndexError) \<and>
   bpm (get_default_analysis\<lparr>bpm := - 120\<rparr>) < 0 \<and>
   0 < duration (get_default_analysis\<lparr>bpm := - 120\<rparr>) \<and>
   (\<forall>k. 0 \<le> rnd_half k) \<and>
   generate_chart 7 rnd_half (get_default_analysis\<lparr>bpm := - 120\<rparr>) ''Easy'' \<noteq> Some (Inr [])"
proof -
  note zero = generate_chart_malformed
    [of "get_default_analysis\<lparr>bpm := 0\<rparr>" 7 rnd_half "''Easy''" "[]", THEN conjunct1, rule_format]
  note empty = generate_chart_malformed
    [of "get_default_analysis\<lparr>energy_levels := []\<rparr>" 7 rnd_half "''Easy''" "[]",
      THEN conjunct2, THEN conjunct1, rule_format]
  note negative = generate_chart_malformed
    [of "get_default_analysis\<lparr>bpm := - 120\<rparr>" 7 rnd_half "''Easy''" "[]",
      THEN conjunct2, THEN conjunct2, rule_format]
  have z1: "bpm (get_default_analysis\<lparr>bpm := 0\<rparr>) = 0"
    by simp
  have z2: "generate_chart 7 rnd_half (get_default_analysis\<lparr>bpm := 0\<rparr>) ''Easy'' =
     Some (Inl ZeroDivisionError)"
    by (rule zero [OF z1])
  have e1: "energy_levels (get_default_analysis\<lparr>energy_levels := []\<rparr>) = []"
    and e2: "bpm (get_default_analysis\<lparr>energy_levels := []\<rparr>) \<noteq> 0"
    and e3: "0 < duration (get_default_analysis\<lparr>energy_levels := []\<rparr>)"
    by (simp_all add: get_default_analysis_def)
  have e4: "generate_chart (Suc 7) rnd_half (get_default_analysis\<lparr>energy_levels := []\<rparr>) ''Easy'' =
     Some (Inl IndexError)"
    by (rule empty [OF conjI [OF e1 conjI [OF e2 e3]]])
  have n1: "bpm (get_default_analysis\<lparr>bpm := - 120\<rparr>) < 0"
    and n2: "0 < duration (get_default_analysis\<lparr>bpm := - 120\<rparr>)"
    and n3: "\<forall>k. 0 \<le> rnd_half k"
    by (simp_all add: get_default_analysis_def rnd_half_def)
  have n4: "generate_chart 7 rnd_half (get_default_analysis\<lparr>bpm := - 120\<rparr>) ''Easy'' \<noteq> Some (Inr [])"
    by (rule negative [OF conjI [OF n1 conjI [OF n2 n3]]])
  show ?thesis
    by (intro conjI; fact)
qed

end
